theory Spec2Isabelle
  imports Complex_Main "HOL-Library.AList"
begin

section \<open>Shared conventions\<close>

text \<open>
  A Python \<open>dict\<close> is modelled as an association list with distinct keys, in insertion
  order: \<open>d[k] = v\<close> is \<^const>\<open>AList.update\<close> (the value is replaced in place when the key
  is present, the pair is appended otherwise), \<open>del d[k]\<close> is \<^const>\<open>AList.delete\<close>,
  \<open>d.get(k)\<close> is \<^const>\<open>map_of\<close>, \<open>d.values()\<close> is \<open>map snd\<close>.  Points in time
  (\<open>datetime.now()\<close>) are integers handed in by the caller.
\<close>

type_synonym 'v dict = "(string \<times> 'v) list"

type_synonym time = int

section \<open>Health monitor (core/health\_monitor.py)\<close>

record HealthCheck =
  hc_service :: string
  hc_status :: string
  hc_message :: "string option"
  hc_last_check :: time

record HealthMonitor =
  health_checks :: "HealthCheck dict"

text \<open>
  \<open>_check_container_health\<close>.  The info dictionary is restricted to its string-valued
  fields (\<open>id\<close>, \<open>name\<close>, \<open>status\<close>, \<open>image\<close>, \<open>created\<close>, \<open>error\<close>); on such a
  dictionary nothing in the \<open>try\<close> body raises, so the \<open>except\<close> branch of the source is
  never entered.
\<close>

definition classify :: "string dict \<Rightarrow> string \<times> string" where
  "classify container_info =
     (let status = (case map_of container_info ''status'' of
                      None \<Rightarrow> ''unknown'' | Some s \<Rightarrow> s)
      in if status = ''running'' then (''healthy'', ''Container is running normally'')
         else if status = ''restarting'' then (''warning'', ''Container is restarting'')
         else if status \<in> set [''stopped'', ''exited'']
           then (''unhealthy'', ''Container is '' @ status)
         else (case map_of container_info ''error'' of
                 Some e \<Rightarrow> (''error'', e)
               | None \<Rightarrow> (''unknown'', ''Unknown container status: '' @ status)))"

definition check_container_health ::
  "time \<Rightarrow> string \<Rightarrow> string dict \<Rightarrow> HealthMonitor \<Rightarrow> HealthMonitor" where
  "check_container_health now service_name container_info hm =
     (let (health_status, message) = classify container_info;
          health_check = \<lparr>hc_service = service_name, hc_status = health_status,
                          hc_message = Some message, hc_last_check = now\<rparr>
      in hm\<lparr>health_checks := AList.update service_name health_check (health_checks hm)\<rparr>)"

text \<open>\<open>_perform_health_checks\<close>: one pass over the dictionary that \<open>list_containers\<close> returned.\<close>

fun perform_health_checks ::
  "time \<Rightarrow> (string dict) dict \<Rightarrow> HealthMonitor \<Rightarrow> HealthMonitor" where
  "perform_health_checks now [] hm = hm"
| "perform_health_checks now ((service_name, container_info) # rest) hm =
     perform_health_checks now rest (check_container_health now service_name container_info hm)"

definition get_all_health_checks :: "HealthMonitor \<Rightarrow> HealthCheck list" where
  "get_all_health_checks hm = map snd (health_checks hm)"

record OverallHealth =
  oh_healthy :: bool
  oh_checks :: "HealthCheck list"
  oh_timestamp :: time
  oh_total_services :: nat
  oh_healthy_services :: nat
  oh_unhealthy_services :: nat

text \<open>
  \<open>get_overall_health\<close>.  The source divides two counts as IEEE doubles and compares with
  the literal \<open>0.8\<close>; division is correctly rounded and rounding is monotone, so for counts
  below \<open>2^53\<close> the comparison has the value of the exact one, which is what is written here.
\<close>

definition get_overall_health :: "time \<Rightarrow> HealthMonitor \<Rightarrow> OverallHealth" where
  "get_overall_health now hm =
     (let checks = get_all_health_checks hm;
          healthy_count = length (filter (\<lambda>c. hc_status c = ''healthy'') checks);
          total_count = length checks;
          overall_healthy =
            (total_count = 0 \<or> (8 / 10 :: real) \<le> real healthy_count / real total_count)
      in \<lparr>oh_healthy = overall_healthy, oh_checks = checks, oh_timestamp = now,
          oh_total_services = total_count, oh_healthy_services = healthy_count,
          oh_unhealthy_services = total_count - healthy_count\<rparr>)"

text \<open>The services the monitor knows, and those whose current verdict is \<open>healthy\<close>.\<close>

definition known_services :: "HealthMonitor \<Rightarrow> string set" where
  "known_services hm = fst ` set (health_checks hm)"

definition healthy_services :: "HealthMonitor \<Rightarrow> string set" where
  "healthy_services hm =
     {s. \<exists>c. map_of (health_checks hm) s = Some c \<and> hc_status c = ''healthy''}"


subsection \<open>The classification as the specification words it\<close>

text \<open>
  The five rules of the specification, read as a relation between an entry and a verdict:
  running is healthy, restarting is a warning, stopped or exited is unhealthy, an entry
  with an error field is an error, and an entry that none of these rules covers is unknown.
\<close>

definition spec_verdict :: "string dict \<Rightarrow> string \<Rightarrow> bool" where
  "spec_verdict entry v =
     (let status = map_of entry ''status'';
          has_error = (map_of entry ''error'' \<noteq> None)
      in (status = Some ''running'' \<and> v = ''healthy'')
       \<or> (status = Some ''restarting'' \<and> v = ''warning'')
       \<or> ((status = Some ''stopped'' \<or> status = Some ''exited'') \<and> v = ''unhealthy'')
       \<or> (has_error \<and> v = ''error'')
       \<or> (status \<noteq> Some ''running'' \<and> status \<noteq> Some ''restarting'' \<and>
          status \<noteq> Some ''stopped'' \<and> status \<noteq> Some ''exited'' \<and> \<not> has_error \<and>
          v = ''unknown''))"

text \<open>What \<open>list_containers\<close> produces: an entry with an error field has status \<open>error\<close>.\<close>

definition listed_entry :: "string dict \<Rightarrow> bool" where
  "listed_entry entry =
     (map_of entry ''error'' = None \<or> map_of entry ''status'' = Some ''error'')"

section \<open>Container manager (core/container\_manager.py)\<close>

subsection \<open>Exceptions and the container runtime\<close>

text \<open>
  The handlers of the manager catch \<open>docker.errors.DockerException\<close> only, so an exception
  of any other class leaves the operation.  A fallible step returns \<open>Inl\<close> of the exception
  raised or \<open>Inr\<close> of its value.
\<close>

datatype exn = DockerException string | ValueError string | OtherException string

fun except_docker :: "(string \<Rightarrow> 'a) \<Rightarrow> exn + 'a \<Rightarrow> exn + 'a" where
  "except_docker handler (Inl (DockerException e)) = Inr (handler e)"
| "except_docker handler r = r"

text \<open>
  What the Docker SDK caches on a \<open>Container\<close> object (\<open>attrs\<close>), as far as the manager
  reads it; \<open>reload()\<close> replaces it.  The image's tags and id are read with it.
\<close>

record Attrs =
  a_name :: string
  a_status :: string
  a_image_tags :: "string list"
  a_image_id :: string
  a_created :: string

record Container =
  c_id :: string
  c_attrs :: Attrs

definition c_status :: "Container \<Rightarrow> string" where
  "c_status container = a_status (c_attrs container)"

record ContainerConfig =
  cc_image :: string
  cc_name :: string
  cc_restart_policy :: string
  cc_labels :: "string dict"
  cc_environment :: "string dict option"
  cc_volumes :: "string dict option"
  cc_ports :: "string dict option"

text \<open>The calls that reach the runtime, recorded in the order they are made.\<close>

datatype rt_call =
    CreateCall string
  | ConnectCall string string
  | StartCall string
  | StopCall string nat
  | RemoveCall string bool
  | ReloadCall string
  | LogsCall string int
  | StatsCall string
  | PullCall string

text \<open>
  The runtime is an external collaborator: any deterministic engine over a state \<open>'w\<close>,
  given by what each SDK call returns or raises and how it changes that state.
\<close>

record 'w Runtime =
  rt_create :: "ContainerConfig \<Rightarrow> 'w \<Rightarrow> (exn + Container) \<times> 'w"
  rt_connect :: "string \<Rightarrow> string \<Rightarrow> 'w \<Rightarrow> (exn + unit) \<times> 'w"
  rt_start :: "string \<Rightarrow> 'w \<Rightarrow> (exn + unit) \<times> 'w"
  rt_stop :: "string \<Rightarrow> nat \<Rightarrow> 'w \<Rightarrow> (exn + unit) \<times> 'w"
  rt_remove :: "string \<Rightarrow> bool \<Rightarrow> 'w \<Rightarrow> (exn + unit) \<times> 'w"
  rt_reload :: "string \<Rightarrow> 'w \<Rightarrow> (exn + Attrs) \<times> 'w"
  rt_logs :: "string \<Rightarrow> int \<Rightarrow> 'w \<Rightarrow> (exn + string) \<times> 'w"
  rt_stats :: "string \<Rightarrow> 'w \<Rightarrow> (exn + string dict) \<times> 'w"
  rt_pull :: "string \<Rightarrow> 'w \<Rightarrow> (exn + unit) \<times> 'w"

record 'w ContainerManager =
  containers :: "Container dict"
  network :: "string option"
  world :: 'w
  calls :: "rt_call list"

definition invoke ::
  "rt_call \<Rightarrow> ('w \<Rightarrow> 'a \<times> 'w) \<Rightarrow> 'w ContainerManager \<Rightarrow> 'a \<times> 'w ContainerManager" where
  "invoke c f cm =
     (case f (world cm) of (r, w') \<Rightarrow> (r, cm\<lparr>world := w', calls := calls cm @ [c]\<rparr>))"

subsection \<open>Preparing the launch specification\<close>

text \<open>\<open>str.split(sep)\<close> for a one-character separator.\<close>

fun split_on :: "char \<Rightarrow> string \<Rightarrow> string list" where
  "split_on sep [] = [[]]"
| "split_on sep (c # cs) =
     (if c = sep then [] # split_on sep cs
      else (case split_on sep cs of w # ws \<Rightarrow> (c # w) # ws | [] \<Rightarrow> [[c]]))"

text \<open>\<open>a, b = parts\<close>: a list of any other length raises \<open>ValueError\<close>.\<close>

fun unpack2 :: "string list \<Rightarrow> exn + (string \<times> string)" where
  "unpack2 [a, b] = Inr (a, b)"
| "unpack2 parts = Inl (ValueError ''wrong number of values to unpack'')"

fun bind_volumes :: "string list \<Rightarrow> string dict \<Rightarrow> exn + string dict" where
  "bind_volumes [] volumes = Inr volumes"
| "bind_volumes (volume # rest) volumes =
     (case unpack2 (split_on CHR '':'' volume) of
        Inl e \<Rightarrow> Inl e
      | Inr (host_path, container_path) \<Rightarrow>
          bind_volumes rest (AList.update host_path container_path volumes))"

fun bind_ports :: "string list \<Rightarrow> string dict \<Rightarrow> exn + string dict" where
  "bind_ports [] ports = Inr ports"
| "bind_ports (port_mapping # rest) ports =
     (if CHR '':'' \<in> set port_mapping then
        (case unpack2 (split_on CHR '':'' port_mapping) of
           Inl e \<Rightarrow> Inl e
         | Inr (host_port, container_port) \<Rightarrow>
             bind_ports rest (AList.update (container_port @ ''/tcp'') host_port ports))
      else bind_ports rest (AList.update (port_mapping @ ''/tcp'') port_mapping ports))"

text \<open>
  The service configuration, as far as it can make the preparation fail or names the
  instance; the remaining fields (command, entrypoint, user, capabilities, devices, limits)
  are copied into the specification when set.
\<close>

record ServiceConfig =
  sc_image :: string
  sc_restart_policy :: string
  sc_environment :: "string dict"
  sc_labels :: "string dict"
  sc_volumes :: "string list"
  sc_ports :: "string list"

definition prepare_container_config :: "string \<Rightarrow> ServiceConfig \<Rightarrow> exn + ContainerConfig" where
  "prepare_container_config service_name config =
     (let labels = foldl (\<lambda>d (k, v). AList.update k v d)
                     [(''io.homie.managed'', ''true''), (''io.homie.service'', service_name)]
                     (sc_labels config);
          environment = (if sc_environment config = [] then None
                         else Some (sc_environment config))
      in case (if sc_volumes config = [] then Inr None
               else map_sum id Some (bind_volumes (sc_volumes config) [])) of
           Inl e \<Rightarrow> Inl e
         | Inr volumes \<Rightarrow>
            (case (if sc_ports config = [] then Inr None
                   else map_sum id Some (bind_ports (sc_ports config) [])) of
               Inl e \<Rightarrow> Inl e
             | Inr ports \<Rightarrow>
                 Inr \<lparr>cc_image = sc_image config, cc_name = ''homie_'' @ service_name,
                      cc_restart_policy = sc_restart_policy config, cc_labels = labels,
                      cc_environment = environment, cc_volumes = volumes,
                      cc_ports = ports\<rparr>))"

subsection \<open>Lifecycle operations\<close>

definition create_container ::
  "'w Runtime \<Rightarrow> string \<Rightarrow> ServiceConfig \<Rightarrow> 'w ContainerManager
     \<Rightarrow> (exn + bool) \<times> 'w ContainerManager" where
  "create_container rt service_name config cm =
     (case prepare_container_config service_name config of
        Inl e \<Rightarrow> (except_docker (\<lambda>_. False) (Inl e), cm)
      | Inr container_config \<Rightarrow>
         (case invoke (CreateCall (cc_name container_config))
                 (rt_create rt container_config) cm of
            (Inl e, cm1) \<Rightarrow> (except_docker (\<lambda>_. False) (Inl e), cm1)
          | (Inr container, cm1) \<Rightarrow>
             (case (case network cm1 of
                      None \<Rightarrow> (Inr (), cm1)
                    | Some net \<Rightarrow>
                        invoke (ConnectCall net (c_id container))
                          (rt_connect rt net (c_id container)) cm1) of
                (Inl e, cm2) \<Rightarrow> (except_docker (\<lambda>_. False) (Inl e), cm2)
              | (Inr _, cm2) \<Rightarrow>
                  (Inr True,
                   cm2\<lparr>containers := AList.update service_name container (containers cm2)\<rparr>))))"

definition start_container ::
  "'w Runtime \<Rightarrow> string \<Rightarrow> 'w ContainerManager \<Rightarrow> (exn + bool) \<times> 'w ContainerManager" where
  "start_container rt service_name cm =
     (case map_of (containers cm) service_name of
        None \<Rightarrow> (Inr False, cm)
      | Some container \<Rightarrow>
         (case invoke (StartCall (c_id container)) (rt_start rt (c_id container)) cm of
            (Inl e, cm1) \<Rightarrow> (except_docker (\<lambda>_. False) (Inl e), cm1)
          | (Inr _, cm1) \<Rightarrow> (Inr True, cm1)))"

definition stop_container ::
  "'w Runtime \<Rightarrow> string \<Rightarrow> nat \<Rightarrow> 'w ContainerManager
     \<Rightarrow> (exn + bool) \<times> 'w ContainerManager" where
  "stop_container rt service_name timeout cm =
     (case map_of (containers cm) service_name of
        None \<Rightarrow> (Inr False, cm)
      | Some container \<Rightarrow>
         (case invoke (StopCall (c_id container) timeout)
                 (rt_stop rt (c_id container) timeout) cm of
            (Inl e, cm1) \<Rightarrow> (except_docker (\<lambda>_. False) (Inl e), cm1)
          | (Inr _, cm1) \<Rightarrow> (Inr True, cm1)))"

text \<open>
  \<open>remove_container\<close>.  \<open>container.status\<close> is the cached attribute: nothing reloads it
  here.  The nested \<open>stop_container\<close> runs with its default timeout of 30 and its boolean
  result is dropped; an exception it lets through is met by this operation's handler.
\<close>

definition remove_container ::
  "'w Runtime \<Rightarrow> string \<Rightarrow> bool \<Rightarrow> 'w ContainerManager
     \<Rightarrow> (exn + bool) \<times> 'w ContainerManager" where
  "remove_container rt service_name force cm =
     (case map_of (containers cm) service_name of
        None \<Rightarrow> (Inr False, cm)
      | Some container \<Rightarrow>
         (case (if c_status container = ''running''
                then stop_container rt service_name 30 cm
                else (Inr False, cm)) of
            (Inl e, cm1) \<Rightarrow> (except_docker (\<lambda>_. False) (Inl e), cm1)
          | (Inr _, cm1) \<Rightarrow>
             (case invoke (RemoveCall (c_id container) force)
                     (rt_remove rt (c_id container) force) cm1 of
                (Inl e, cm2) \<Rightarrow> (except_docker (\<lambda>_. False) (Inl e), cm2)
              | (Inr _, cm2) \<Rightarrow>
                  (Inr True,
                   cm2\<lparr>containers := AList.delete service_name (containers cm2)\<rparr>))))"

text \<open>\<open>reload()\<close> refreshes the attributes cached on the object the registry holds.\<close>

definition get_container_status ::
  "'w Runtime \<Rightarrow> string \<Rightarrow> 'w ContainerManager \<Rightarrow> (exn + string) \<times> 'w ContainerManager" where
  "get_container_status rt service_name cm =
     (case map_of (containers cm) service_name of
        None \<Rightarrow> (Inr ''unknown'', cm)
      | Some container \<Rightarrow>
         (case invoke (ReloadCall (c_id container)) (rt_reload rt (c_id container)) cm of
            (Inl e, cm1) \<Rightarrow> (except_docker (\<lambda>_. ''error'') (Inl e), cm1)
          | (Inr attrs, cm1) \<Rightarrow>
              (Inr (a_status attrs),
               cm1\<lparr>containers := AList.update service_name (container\<lparr>c_attrs := attrs\<rparr>)
                                    (containers cm1)\<rparr>)))"

text \<open>
  A Python \<open>str\<close> is kept as its UTF-8 bytes, so \<open>bytes.decode('utf-8')\<close> returns the
  bytes when they are well-formed UTF-8 and raises \<open>UnicodeDecodeError\<close>, a \<open>ValueError\<close>,
  otherwise.
\<close>

definition cont_byte :: "nat \<Rightarrow> bool" where
  "cont_byte b = (128 \<le> b \<and> b \<le> 191)"

fun utf8_valid :: "nat list \<Rightarrow> bool" where
  "utf8_valid [] = True"
| "utf8_valid (b # bs) =
     (if b < 128 then utf8_valid bs
      else if 194 \<le> b \<and> b \<le> 223 then
        (case bs of c1 # r \<Rightarrow> cont_byte c1 \<and> utf8_valid r | _ \<Rightarrow> False)
      else if 224 \<le> b \<and> b \<le> 239 then
        (case bs of
           c1 # c2 # r \<Rightarrow>
             (if b = 224 then 160 \<le> c1 \<and> c1 \<le> 191
              else if b = 237 then 128 \<le> c1 \<and> c1 \<le> 159
              else cont_byte c1) \<and> cont_byte c2 \<and> utf8_valid r
         | _ \<Rightarrow> False)
      else if 240 \<le> b \<and> b \<le> 244 then
        (case bs of
           c1 # c2 # c3 # r \<Rightarrow>
             (if b = 240 then 144 \<le> c1 \<and> c1 \<le> 191
              else if b = 244 then 128 \<le> c1 \<and> c1 \<le> 143
              else cont_byte c1) \<and> cont_byte c2 \<and> cont_byte c3 \<and> utf8_valid r
         | _ \<Rightarrow> False)
      else False)"

definition decode_utf8 :: "string \<Rightarrow> exn + string" where
  "decode_utf8 bytes =
     (if utf8_valid (map of_char bytes) then Inr bytes
      else Inl (ValueError ''utf-8 codec cannot decode bytes''))"

definition get_container_logs ::
  "'w Runtime \<Rightarrow> string \<Rightarrow> int \<Rightarrow> 'w ContainerManager
     \<Rightarrow> (exn + string) \<times> 'w ContainerManager" where
  "get_container_logs rt service_name tail cm =
     (case map_of (containers cm) service_name of
        None \<Rightarrow> (Inr ''Container not found'', cm)
      | Some container \<Rightarrow>
         (case invoke (LogsCall (c_id container) tail)
                 (rt_logs rt (c_id container) tail) cm of
            (Inl e, cm1) \<Rightarrow> (except_docker (\<lambda>msg. ''Error getting logs: '' @ msg) (Inl e), cm1)
          | (Inr logs, cm1) \<Rightarrow> (decode_utf8 logs, cm1)))"

definition get_container_stats ::
  "'w Runtime \<Rightarrow> string \<Rightarrow> 'w ContainerManager
     \<Rightarrow> (exn + string dict option) \<times> 'w ContainerManager" where
  "get_container_stats rt service_name cm =
     (case map_of (containers cm) service_name of
        None \<Rightarrow> (Inr None, cm)
      | Some container \<Rightarrow>
         (case invoke (StatsCall (c_id container)) (rt_stats rt (c_id container)) cm of
            (Inl e, cm1) \<Rightarrow> (except_docker (\<lambda>_. None) (Inl e), cm1)
          | (Inr stats, cm1) \<Rightarrow> (Inr (Some stats), cm1)))"

text \<open>
  \<open>list_containers\<close>: one entry per registered service, from a reload of its instance.
  The entry keeps the string-valued fields; \<open>ports\<close> and \<open>labels\<close> are mappings that no
  consumer in the core reads.
\<close>

definition container_entry :: "Container \<Rightarrow> Attrs \<Rightarrow> string dict" where
  "container_entry container attrs =
     [(''id'', c_id container), (''name'', a_name attrs), (''status'', a_status attrs),
      (''image'', (case a_image_tags attrs of t # _ \<Rightarrow> t | [] \<Rightarrow> a_image_id attrs)),
      (''created'', a_created attrs)]"

definition error_entry :: "string \<Rightarrow> string dict" where
  "error_entry e = [(''error'', e), (''status'', ''error'')]"

fun list_entries ::
  "'w Runtime \<Rightarrow> Container dict \<Rightarrow> (string dict) dict \<Rightarrow> 'w ContainerManager
     \<Rightarrow> (exn + (string dict) dict) \<times> 'w ContainerManager" where
  "list_entries rt [] result cm = (Inr result, cm)"
| "list_entries rt ((service_name, container) # rest) result cm =
     (case invoke (ReloadCall (c_id container)) (rt_reload rt (c_id container)) cm of
        (Inl (DockerException e), cm1) \<Rightarrow>
          list_entries rt rest (AList.update service_name (error_entry e) result) cm1
      | (Inl e, cm1) \<Rightarrow> (Inl e, cm1)
      | (Inr attrs, cm1) \<Rightarrow>
          list_entries rt rest
            (AList.update service_name (container_entry container attrs) result)
            (cm1\<lparr>containers := AList.update service_name (container\<lparr>c_attrs := attrs\<rparr>)
                                  (containers cm1)\<rparr>))"

definition list_containers ::
  "'w Runtime \<Rightarrow> 'w ContainerManager
     \<Rightarrow> (exn + (string dict) dict) \<times> 'w ContainerManager" where
  "list_containers rt cm = list_entries rt (containers cm) [] cm"

definition pull_image ::
  "'w Runtime \<Rightarrow> string \<Rightarrow> 'w ContainerManager \<Rightarrow> (exn + bool) \<times> 'w ContainerManager" where
  "pull_image rt image_ref cm =
     (case invoke (PullCall image_ref) (rt_pull rt image_ref) cm of
        (Inl e, cm1) \<Rightarrow> (except_docker (\<lambda>_. False) (Inl e), cm1)
      | (Inr _, cm1) \<Rightarrow> (Inr True, cm1))"

text \<open>
  \<open>update_container\<close>: the five steps in sequence, each result dropped.  Its handler is
  \<open>except Exception\<close>, so whatever a step lets through ends the update with \<open>False\<close>.
\<close>

definition update_container ::
  "'w Runtime \<Rightarrow> string \<Rightarrow> ServiceConfig \<Rightarrow> 'w ContainerManager
     \<Rightarrow> bool \<times> 'w ContainerManager" where
  "update_container rt service_name config cm =
     (case stop_container rt service_name 30 cm of
        (Inl e, cm1) \<Rightarrow> (False, cm1)
      | (Inr _, cm1) \<Rightarrow>
     (case remove_container rt service_name False cm1 of
        (Inl e, cm2) \<Rightarrow> (False, cm2)
      | (Inr _, cm2) \<Rightarrow>
     (case pull_image rt (sc_image config) cm2 of
        (Inl e, cm3) \<Rightarrow> (False, cm3)
      | (Inr _, cm3) \<Rightarrow>
     (case create_container rt service_name config cm3 of
        (Inl e, cm4) \<Rightarrow> (False, cm4)
      | (Inr _, cm4) \<Rightarrow>
     (case start_container rt service_name cm4 of
        (Inl e, cm5) \<Rightarrow> (False, cm5)
      | (Inr _, cm5) \<Rightarrow> (True, cm5))))))"

text \<open>The position of a runtime call in the update sequence.\<close>

fun step_rank :: "rt_call \<Rightarrow> nat" where
  "step_rank (StopCall _ _) = 0"
| "step_rank (RemoveCall _ _) = 1"
| "step_rank (PullCall _) = 2"
| "step_rank (CreateCall _) = 3"
| "step_rank (ConnectCall _ _) = 4"
| "step_rank (StartCall _) = 5"
| "step_rank _ = 6"

subsection \<open>Notions used in the statements\<close>

text \<open>The first statement of \<open>remove_container\<close> after the lookup, on its own.\<close>

definition stop_if_running ::
  "'w Runtime \<Rightarrow> string \<Rightarrow> Container \<Rightarrow> 'w ContainerManager
     \<Rightarrow> (exn + bool) \<times> 'w ContainerManager" where
  "stop_if_running rt service_name container cm =
     (if c_status container = ''running'' then stop_container rt service_name 30 cm
      else (Inr False, cm))"

text \<open>
  \<open>cm'\<close> continues \<open>cm\<close> when its trace is that of \<open>cm\<close> followed by calls whose
  ranks lie between \<open>lo\<close> and \<open>hi\<close> and never decrease.
\<close>

definition continues :: "nat \<Rightarrow> nat \<Rightarrow> 'w ContainerManager \<Rightarrow> 'w ContainerManager \<Rightarrow> bool" where
  "continues lo hi cm cm' =
     (\<exists>new. calls cm' = calls cm @ new \<and> sorted (map step_rank new) \<and>
            (\<forall>c \<in> set new. lo \<le> step_rank c \<and> step_rank c \<le> hi))"

text \<open>The states that \<open>update_container\<close> passes through, one per step.\<close>

definition after_stop :: "'w Runtime \<Rightarrow> string \<Rightarrow> 'w ContainerManager \<Rightarrow> 'w ContainerManager" where
  "after_stop rt service_name cm = snd (stop_container rt service_name 30 cm)"

definition after_remove :: "'w Runtime \<Rightarrow> string \<Rightarrow> 'w ContainerManager \<Rightarrow> 'w ContainerManager" where
  "after_remove rt service_name cm =
     snd (remove_container rt service_name False (after_stop rt service_name cm))"

definition before_create ::
  "'w Runtime \<Rightarrow> string \<Rightarrow> ServiceConfig \<Rightarrow> 'w ContainerManager \<Rightarrow> 'w ContainerManager" where
  "before_create rt service_name config cm =
     snd (pull_image rt (sc_image config) (after_remove rt service_name cm))"

definition after_create ::
  "'w Runtime \<Rightarrow> string \<Rightarrow> ServiceConfig \<Rightarrow> 'w ContainerManager \<Rightarrow> 'w ContainerManager" where
  "after_create rt service_name config cm =
     snd (create_container rt service_name config (before_create rt service_name config cm))"

definition after_start ::
  "'w Runtime \<Rightarrow> string \<Rightarrow> ServiceConfig \<Rightarrow> 'w ContainerManager \<Rightarrow> 'w ContainerManager" where
  "after_start rt service_name config cm =
     snd (start_container rt service_name (after_create rt service_name config cm))"

subsection \<open>A small engine for the examples\<close>

text \<open>
  An executable engine on which the operations are run at concrete inputs.  It keeps the
  attributes of each instance by id, refuses a second instance under a name in use and
  the unforced removal of a running instance, fails on an id it does not hold, and
  rejects the calls listed in \<open>w_rejects\<close>.
\<close>

record World =
  w_containers :: "Attrs dict"
  w_rejects :: "rt_call list"

definition sim_create :: "ContainerConfig \<Rightarrow> World \<Rightarrow> (exn + Container) \<times> World" where
  "sim_create cfg w =
     (if CreateCall (cc_name cfg) \<in> set (w_rejects w) then
        (Inl (DockerException ''500 Server Error''), w)
      else if cc_name cfg \<in> set (map (\<lambda>p. a_name (snd p)) (w_containers w)) then
        (Inl (DockerException ''409 Conflict: name already in use''), w)
      else
        (let attrs = \<lparr>a_name = cc_name cfg, a_status = ''created'',
                      a_image_tags = [cc_image cfg], a_image_id = ''sha256:'' @ cc_image cfg,
                      a_created = ''2024-01-01T00:00:00Z''\<rparr>;
             cid = ''id_'' @ cc_name cfg
         in (Inr \<lparr>c_id = cid, c_attrs = attrs\<rparr>,
             w\<lparr>w_containers := AList.update cid attrs (w_containers w)\<rparr>)))"

definition sim_signal :: "rt_call \<Rightarrow> string \<Rightarrow> string \<Rightarrow> World \<Rightarrow> (exn + unit) \<times> World" where
  "sim_signal call cid new_status w =
     (if call \<in> set (w_rejects w) then (Inl (DockerException ''500 Server Error''), w)
      else (case map_of (w_containers w) cid of
              None \<Rightarrow> (Inl (DockerException ''404 Not Found''), w)
            | Some attrs \<Rightarrow>
                (Inr (),
                 w\<lparr>w_containers :=
                     AList.update cid (attrs\<lparr>a_status := new_status\<rparr>) (w_containers w)\<rparr>)))"

definition sim_remove :: "string \<Rightarrow> bool \<Rightarrow> World \<Rightarrow> (exn + unit) \<times> World" where
  "sim_remove cid force w =
     (if RemoveCall cid force \<in> set (w_rejects w) then
        (Inl (DockerException ''500 Server Error''), w)
      else (case map_of (w_containers w) cid of
              None \<Rightarrow> (Inl (DockerException ''404 Not Found''), w)
            | Some attrs \<Rightarrow>
                if a_status attrs = ''running'' \<and> \<not> force then
                  (Inl (DockerException ''409 Conflict: container is running''), w)
                else (Inr (), w\<lparr>w_containers := AList.delete cid (w_containers w)\<rparr>)))"

definition sim_reload :: "string \<Rightarrow> World \<Rightarrow> (exn + Attrs) \<times> World" where
  "sim_reload cid w =
     (if ReloadCall cid \<in> set (w_rejects w) then (Inl (DockerException ''500 Server Error''), w)
      else (case map_of (w_containers w) cid of
              None \<Rightarrow> (Inl (DockerException ''404 Not Found''), w)
            | Some attrs \<Rightarrow> (Inr attrs, w)))"

definition sim_plain :: "rt_call \<Rightarrow> 'a \<Rightarrow> World \<Rightarrow> (exn + 'a) \<times> World" where
  "sim_plain call v w =
     (if call \<in> set (w_rejects w) then (Inl (DockerException ''500 Server Error''), w)
      else (Inr v, w))"

definition docker_sim :: "World Runtime" where
  "docker_sim =
     \<lparr>rt_create = sim_create,
      rt_connect = (\<lambda>net cid. sim_plain (ConnectCall net cid) ()),
      rt_start = (\<lambda>cid. sim_signal (StartCall cid) cid ''running''),
      rt_stop = (\<lambda>cid timeout. sim_signal (StopCall cid timeout) cid ''exited''),
      rt_remove = sim_remove,
      rt_reload = sim_reload,
      rt_logs = (\<lambda>cid tail. sim_plain (LogsCall cid tail) ''log line''),
      rt_stats = (\<lambda>cid. sim_plain (StatsCall cid) [(''cpu'', ''0'')]),
      rt_pull = (\<lambda>image_ref. sim_plain (PullCall image_ref) ())\<rparr>"

section \<open>Scheduler (core/scheduler.py)\<close>

subsection \<open>Reading an integer\<close>

text \<open>
  A Python \<open>str\<close> is kept as its UTF-8 bytes; \<open>int\<close> reads its code points, which
  \<open>utf8_points\<close> recovers (bytes that are not UTF-8 stand for no string).
\<close>

fun utf8_points :: "nat list \<Rightarrow> nat list option" where
  "utf8_points [] = Some []"
| "utf8_points (b # bs) =
     (if b < 128 then map_option ((#) b) (utf8_points bs)
      else if 194 \<le> b \<and> b \<le> 223 then
        (case bs of
           c1 # r \<Rightarrow>
             if cont_byte c1
             then map_option ((#) ((b - 192) * 64 + (c1 - 128))) (utf8_points r)
             else None
         | _ \<Rightarrow> None)
      else if 224 \<le> b \<and> b \<le> 239 then
        (case bs of
           c1 # c2 # r \<Rightarrow>
             if (if b = 224 then 160 \<le> c1 \<and> c1 \<le> 191
                 else if b = 237 then 128 \<le> c1 \<and> c1 \<le> 159
                 else cont_byte c1) \<and> cont_byte c2
             then map_option ((#) ((b - 224) * 4096 + (c1 - 128) * 64 + (c2 - 128)))
                    (utf8_points r)
             else None
         | _ \<Rightarrow> None)
      else if 240 \<le> b \<and> b \<le> 244 then
        (case bs of
           c1 # c2 # c3 # r \<Rightarrow>
             if (if b = 240 then 144 \<le> c1 \<and> c1 \<le> 191
                 else if b = 244 then 128 \<le> c1 \<and> c1 \<le> 143
                 else cont_byte c1) \<and> cont_byte c2 \<and> cont_byte c3
             then map_option
                    ((#) ((b - 240) * 262144 + (c1 - 128) * 4096 + (c2 - 128) * 64
                          + (c3 - 128)))
                    (utf8_points r)
             else None
         | _ \<Rightarrow> None)
      else None)"

text \<open>
  \<open>int(s)\<close> on a string, base 10.  Every code point from 127 on is replaced first: a
  Unicode space by a blank, a Unicode decimal digit by its ASCII digit; any other such
  code point makes the string invalid.  Then the surrounding ASCII whitespace is dropped,
  one sign is allowed, and the digits may be grouped by single underscores.  Anything else
  raises \<open>ValueError\<close>, as does a literal of more than \<open>sys.int_max_str_digits\<close>
  (4300) digits.  The tables are those of Unicode 14.0, as in Python 3.11: the spaces from
  127 on, and the first code point of each run of the ten digits 0 to 9.
\<close>

definition unicode_spaces :: "nat list" where
  "unicode_spaces =
     [133, 160, 5760, 8192, 8193, 8194, 8195, 8196, 8197, 8198, 8199, 8200, 8201,
      8202, 8232, 8233, 8239, 8287, 12288]"

definition decimal_runs :: "nat list" where
  "decimal_runs =
     [1632, 1776, 1984, 2406, 2534, 2662, 2790, 2918, 3046, 3174, 3302, 3430, 3558,
      3664, 3792, 3872, 4160, 4240, 6112, 6160, 6470, 6608, 6784, 6800, 6992, 7088,
      7232, 7248, 42528, 43216, 43264, 43472, 43504, 43600, 44016, 65296, 66720,
      68912, 69734, 69872, 69942, 70096, 70384, 70736, 70864, 71248, 71360, 71472,
      71904, 72016, 72784, 73040, 73120, 92768, 92864, 93008, 120782, 120792,
      120802, 120812, 120822, 123200, 123632, 125264, 130032]"

definition to_ascii :: "nat \<Rightarrow> nat option" where
  "to_ascii c =
     (if c < 127 then Some c
      else if c \<in> set unicode_spaces then Some 32
      else (case find (\<lambda>s. s \<le> c \<and> c \<le> s + 9) decimal_runs of
              Some s \<Rightarrow> Some (48 + (c - s))
            | None \<Rightarrow> None))"

definition is_space :: "nat \<Rightarrow> bool" where
  "is_space c = (c \<in> set [9, 10, 11, 12, 13, 32])"

definition is_digit :: "nat \<Rightarrow> bool" where
  "is_digit c = (48 \<le> c \<and> c \<le> 57)"

definition digit_value :: "nat \<Rightarrow> int" where
  "digit_value c = int c - 48"

definition strip :: "nat list \<Rightarrow> nat list" where
  "strip s = rev (dropWhile is_space (rev (dropWhile is_space s)))"

fun well_grouped :: "nat list \<Rightarrow> bool" where
  "well_grouped [] = False"
| "well_grouped [c] = is_digit c"
| "well_grouped (c # d # cs) =
     (is_digit c \<and> (if d = 95 then well_grouped cs else well_grouped (d # cs)))"

definition decimal :: "nat list \<Rightarrow> int" where
  "decimal ds = foldl (\<lambda>acc c. 10 * acc + digit_value c) 0 ds"

definition int_max_str_digits :: nat where
  "int_max_str_digits = 4300"

definition invalid_literal :: exn where
  "invalid_literal = ValueError ''invalid literal for int() with base 10''"

definition py_int :: "string \<Rightarrow> exn + int" where
  "py_int s =
     (case utf8_points (map of_char s) of
        None \<Rightarrow> Inl invalid_literal
      | Some points \<Rightarrow>
         (case those (map to_ascii points) of
            None \<Rightarrow> Inl invalid_literal
          | Some ascii \<Rightarrow>
             (let t = strip ascii;
                  (negative, body) = (case t of
                                        c # r \<Rightarrow> if c = 45 then (True, r)
                                                 else if c = 43 then (False, r)
                                                 else (False, t)
                                      | [] \<Rightarrow> (False, t));
                  digits = filter (\<lambda>c. c \<noteq> 95) body
              in if \<not> well_grouped body then Inl invalid_literal
                 else if int_max_str_digits < length digits then
                   Inl (ValueError ''Exceeds the limit for integer string conversion'')
                 else Inr (if negative then - decimal digits else decimal digits))))"

subsection \<open>Tasks and the trigger engine\<close>

text \<open>
  The bound action, with its keyword arguments: given the \<open>last_run\<close> and \<open>next_run\<close> its
  task shows when it is invoked, it returns (\<open>None\<close>) or raises.
\<close>

type_synonym action = "time option \<times> time option \<Rightarrow> exn option"

datatype trigger = CronTrigger string | IntervalTrigger int

text \<open>
  An attribute kept in \<open>__slots__\<close>: reading it before it has been assigned raises
  \<open>AttributeError\<close>.  The engine assigns a job's \<open>next_run_time\<close> when it really adds
  the job, which for an engine that has not been started is at its start.
\<close>

datatype 'a slot = Unset | Slot 'a

record Job =
  job_id :: string
  job_name :: string
  job_trigger :: trigger
  job_next_run_time :: "time option slot"

text \<open>\<open>task_job\<close> refers to the engine's job by its id; the engine owns the job itself.\<close>

record Task =
  task_id :: string
  task_name :: string
  task_func :: action
  task_schedule :: string
  task_enabled :: bool
  last_run :: "time option"
  next_run :: "time option"
  task_job :: "string option"

text \<open>
  The scheduling engine and the cron parser are external: \<open>croniter\<close> accepts a string
  (\<open>None\<close>) or raises; the two trigger constructors and \<open>add_job\<close> return or raise.
\<close>

record 'e Engine =
  croniter :: "string \<Rightarrow> exn option"
  from_crontab :: "string \<Rightarrow> exn + trigger"
  interval_trigger :: "int \<Rightarrow> exn + trigger"
  add_job :: "trigger \<Rightarrow> string \<Rightarrow> string \<Rightarrow> 'e \<Rightarrow> (exn + Job) \<times> 'e"

text \<open>
  \<open>Task\<close> objects are shared by reference between the task dictionary and the engine,
  which keeps the task it was handed at \<open>add_job\<close> as the argument of the job.  So the
  objects live in a store, a reference being a position in \<open>objects\<close>; \<open>tasks\<close> is
  \<open>self.tasks\<close>, and \<open>bound\<close> gives for each job id the task the job is bound to.
\<close>

record 'e Scheduler =
  engine :: 'e
  objects :: "Task list"
  tasks :: "nat dict"
  bound :: "nat dict"

definition is_cron_schedule :: "'e Engine \<Rightarrow> string \<Rightarrow> exn + bool" where
  "is_cron_schedule api schedule =
     (case croniter api schedule of
        None \<Rightarrow> Inr True
      | Some (ValueError _) \<Rightarrow> Inr False
      | Some e \<Rightarrow> Inl e)"

definition endswith :: "string \<Rightarrow> char list \<Rightarrow> bool" where
  "endswith s cs = (s \<noteq> [] \<and> last s \<in> set cs)"

definition is_interval_schedule :: "string \<Rightarrow> bool" where
  "is_interval_schedule schedule = endswith schedule ''smhd''"

definition parse_interval :: "string \<Rightarrow> exn + int" where
  "parse_interval schedule =
     (if endswith schedule ''s'' then py_int (butlast schedule)
      else if endswith schedule ''m'' then map_sum id (\<lambda>n. n * 60) (py_int (butlast schedule))
      else if endswith schedule ''h'' then map_sum id (\<lambda>n. n * 3600) (py_int (butlast schedule))
      else if endswith schedule ''d'' then map_sum id (\<lambda>n. n * 86400) (py_int (butlast schedule))
      else Inl (ValueError (''Invalid interval format: '' @ schedule)))"

text \<open>The seconds in a unit, as the specification lists them.\<close>

definition unit_seconds :: "char \<Rightarrow> int" where
  "unit_seconds u =
     (if u = CHR ''s'' then 1 else if u = CHR ''m'' then 60
      else if u = CHR ''h'' then 3600 else if u = CHR ''d'' then 86400 else 0)"

text \<open>\<open>Task.__init__\<close>.\<close>

definition new_task :: "string \<Rightarrow> string \<Rightarrow> action \<Rightarrow> string \<Rightarrow> bool \<Rightarrow> Task" where
  "new_task tid name func schedule enabled =
     \<lparr>task_id = tid, task_name = name, task_func = func, task_schedule = schedule,
      task_enabled = enabled, last_run = None, next_run = None, task_job = None\<rparr>"

text \<open>
  \<open>add_task\<close>.  Every exception inside is caught (\<open>except Exception\<close>) and turns into
  \<open>False\<close>; the engine keeps whatever state the failed call left.  When the job comes
  back without a \<open>next_run_time\<close>, reading it raises: the job stays with the engine,
  bound to the new task, and the task dictionary is not touched.
\<close>

definition add_task ::
  "'e Engine \<Rightarrow> string \<Rightarrow> string \<Rightarrow> action \<Rightarrow> string \<Rightarrow> bool \<Rightarrow> 'e Scheduler
     \<Rightarrow> bool \<times> 'e Scheduler" where
  "add_task api tid name func schedule enabled sch =
     (let task = new_task tid name func schedule enabled;
          ref = length (objects sch)
      in if enabled then
           (case (case is_cron_schedule api schedule of
                    Inl e \<Rightarrow> Inl e
                  | Inr True \<Rightarrow> map_sum id Some (from_crontab api schedule)
                  | Inr False \<Rightarrow>
                      if is_interval_schedule schedule then
                        (case parse_interval schedule of
                           Inl e \<Rightarrow> Inl e
                         | Inr seconds \<Rightarrow> map_sum id Some (interval_trigger api seconds))
                      else Inr None) of
              Inl e \<Rightarrow> (False, sch)
            | Inr None \<Rightarrow> (False, sch)
            | Inr (Some trigger) \<Rightarrow>
               (case add_job api trigger tid name (engine sch) of
                  (Inl e, eng) \<Rightarrow> (False, sch\<lparr>engine := eng\<rparr>)
                | (Inr job, eng) \<Rightarrow>
                   (case job_next_run_time job of
                      Unset \<Rightarrow>
                        (False,
                         sch\<lparr>engine := eng,
                             objects := objects sch @ [task\<lparr>task_job := Some (job_id job)\<rparr>],
                             bound := AList.update tid ref (bound sch)\<rparr>)
                    | Slot next_time \<Rightarrow>
                        (True,
                         sch\<lparr>engine := eng,
                             objects := objects sch
                               @ [task\<lparr>task_job := Some (job_id job), next_run := next_time\<rparr>],
                             tasks := AList.update tid ref (tasks sch),
                             bound := AList.update tid ref (bound sch)\<rparr>))))
         else (True, sch\<lparr>objects := objects sch @ [task],
                         tasks := AList.update tid ref (tasks sch)\<rparr>))"

text \<open>\<open>get_task\<close>, returning the task object itself.\<close>

definition get_task :: "'e Scheduler \<Rightarrow> string \<Rightarrow> Task option" where
  "get_task sch tid =
     (case map_of (tasks sch) tid of
        None \<Rightarrow> None
      | Some ref \<Rightarrow> if ref < length (objects sch) then Some (objects sch ! ref) else None)"

text \<open>
  \<open>_task_wrapper\<close>.  \<open>engine_next\<close> is the value of \<open>task.job.next_run_time\<close> when the
  wrapper reads it.
\<close>

definition task_wrapper :: "time \<Rightarrow> time option \<Rightarrow> Task \<Rightarrow> Task" where
  "task_wrapper now engine_next task =
     (let task1 = task\<lparr>last_run := Some now\<rparr>
      in case task_func task1 (last_run task1, next_run task1) of
           Some e \<Rightarrow> task1
         | None \<Rightarrow>
             (case task_job task1 of
                None \<Rightarrow> task1
              | Some job \<Rightarrow> task1\<lparr>next_run := engine_next\<rparr>))"

text \<open>
  A firing of the job with the given id: the engine calls the wrapper on the task the
  job is bound to, which changes that object in the store.
\<close>

definition fire :: "time \<Rightarrow> time option \<Rightarrow> string \<Rightarrow> 'e Scheduler \<Rightarrow> 'e Scheduler" where
  "fire now engine_next tid sch =
     (case map_of (bound sch) tid of
        None \<Rightarrow> sch
      | Some ref \<Rightarrow>
          if ref < length (objects sch)
          then sch\<lparr>objects := (objects sch)
                                [ref := task_wrapper now engine_next (objects sch ! ref)]\<rparr>
          else sch)"

text \<open>
  A stand-in for the engine in the examples.  The parser accepts a string of five or six
  blank-separated fields, the cron trigger wants exactly five.  The engine is running:
  its state is the ids of the jobs it holds, a second job under a held id is refused
  (\<open>ConflictingIdError\<close>), and a job's first run is due at time 0.
  \<open>pending_engine\<close> is the same engine before its start: a job is kept pending,
  without a \<open>next_run_time\<close>.
\<close>

definition field_count :: "string \<Rightarrow> nat" where
  "field_count s = length (filter (\<lambda>w. w \<noteq> []) (split_on CHR '' '' s))"

definition test_engine :: "string list Engine" where
  "test_engine =
     \<lparr>croniter = (\<lambda>s. if field_count s = 5 \<or> field_count s = 6 then None
                      else Some (ValueError ''Exactly 5 or 6 columns has to be specified'')),
      from_crontab = (\<lambda>s. if field_count s = 5 then Inr (CronTrigger s)
                          else Inl (ValueError ''Wrong number of fields'')),
      interval_trigger = (\<lambda>n. Inr (IntervalTrigger n)),
      add_job = (\<lambda>trig tid name held.
                   if tid \<in> set held then (Inl (OtherException ''ConflictingIdError''), held)
                   else (Inr \<lparr>job_id = tid, job_name = name, job_trigger = trig,
                              job_next_run_time = Slot (Some 0)\<rparr>, tid # held))\<rparr>"

definition pending_engine :: "string list Engine" where
  "pending_engine =
     test_engine
       \<lparr>add_job := (\<lambda>trig tid name held.
                     (Inr \<lparr>job_id = tid, job_name = name, job_trigger = trig,
                           job_next_run_time = Unset\<rparr>, held))\<rparr>"

section \<open>Backup manager (core/backup\_manager.py)\<close>

subsection \<open>The backup directory\<close>

text \<open>
  The state is the listing of \<open>backup_path\<close>: each name is a directory or a file.  Of a
  file the model keeps what \<open>stat\<close> shows, whether its tar stream was finished, and the
  metadata that \<open>_get_backup_metadata\<close> manages to read from it (\<open>None\<close> when the archive
  cannot be read or has no \<open>metadata.json\<close>; either key may be missing).
\<close>

record Metadata =
  md_services :: "string list option"
  md_version :: "string option"

record ArchiveFile =
  af_size :: nat
  af_mtime :: time
  af_complete :: bool
  af_metadata :: "Metadata option"

datatype entry = Dir nat time | File ArchiveFile

text \<open>
  What goes wrong during one \<open>create_backup\<close>: each filesystem step either succeeds or
  raises.  Writing the archive can fail when the file is opened (nothing is created) or
  while members are added (the file exists, unfinished, with so many bytes).
\<close>

datatype archive_outcome = Written nat | OpenFails | AddFails nat

record Faults =
  mkdir_fails :: bool
  configs_fail :: bool
  data_fail :: bool
  metadata_fail :: bool
  archive :: archive_outcome
  rmtree_fails :: bool
  cleanup_rmtree_fails :: bool
  cleanup_unlink_fails :: bool

definition os_error :: exn where
  "os_error = OtherException ''OSError''"

text \<open>\<open>temp_dir.mkdir(exist_ok=True)\<close>.\<close>

definition mkdir :: "bool \<Rightarrow> time \<Rightarrow> string \<Rightarrow> entry dict \<Rightarrow> (exn + unit) \<times> entry dict" where
  "mkdir fails now name fs =
     (if fails then (Inl os_error, fs)
      else (case map_of fs name of
              None \<Rightarrow> (Inr (), AList.update name (Dir 4096 now) fs)
            | Some (Dir _ _) \<Rightarrow> (Inr (), fs)
            | Some (File _) \<Rightarrow> (Inl os_error, fs)))"

text \<open>\<open>shutil.rmtree(path)\<close>.\<close>

definition rmtree :: "bool \<Rightarrow> string \<Rightarrow> entry dict \<Rightarrow> (exn + unit) \<times> entry dict" where
  "rmtree fails name fs =
     (if fails then (Inl os_error, fs)
      else (case map_of fs name of
              Some (Dir _ _) \<Rightarrow> (Inr (), AList.delete name fs)
            | _ \<Rightarrow> (Inl os_error, fs)))"

text \<open>\<open>path.unlink()\<close>.\<close>

definition unlink :: "bool \<Rightarrow> string \<Rightarrow> entry dict \<Rightarrow> (exn + unit) \<times> entry dict" where
  "unlink fails name fs =
     (if fails then (Inl os_error, fs)
      else (case map_of fs name of
              Some (File _) \<Rightarrow> (Inr (), AList.delete name fs)
            | _ \<Rightarrow> (Inl os_error, fs)))"

text \<open>
  \<open>_backup_configs\<close>, \<open>_backup_service_data\<close> and \<open>_create_backup_metadata\<close> write
  below the staging directory only, so they leave the listing as it is.
\<close>

definition staging_step :: "bool \<Rightarrow> entry dict \<Rightarrow> (exn + unit) \<times> entry dict" where
  "staging_step fails fs = (if fails then (Inl os_error, fs) else (Inr (), fs))"

text \<open>
  \<open>_create_archive(temp_dir, archive_path)\<close>: \<open>tarfile.open(archive_path, "w:gz")\<close>
  creates or truncates the file at \<open>archive_path\<close>, then the staging tree is added.
\<close>

definition create_archive ::
  "archive_outcome \<Rightarrow> time \<Rightarrow> string list option \<Rightarrow> string \<Rightarrow> entry dict
     \<Rightarrow> (exn + unit) \<times> entry dict" where
  "create_archive outcome now services archive_path fs =
     (case map_of fs archive_path of
        Some (Dir _ _) \<Rightarrow> (Inl os_error, fs)
      | _ \<Rightarrow>
        (case outcome of
           OpenFails \<Rightarrow> (Inl os_error, fs)
         | AddFails n \<Rightarrow>
             (Inl os_error,
              AList.update archive_path
                (File \<lparr>af_size = n, af_mtime = now, af_complete = False,
                       af_metadata = None\<rparr>) fs)
         | Written n \<Rightarrow>
             (Inr (),
              AList.update archive_path
                (File \<lparr>af_size = n, af_mtime = now, af_complete = True,
                       af_metadata =
                         Some \<lparr>md_services =
                                 Some (case services of
                                         None \<Rightarrow> [''all'']
                                       | Some ss \<Rightarrow> if ss = [] then [''all''] else ss),
                               md_version = Some ''1.0.0''\<rparr>\<rparr>) fs)))"

definition backup_filename :: "string \<Rightarrow> string" where
  "backup_filename timestamp = ''orchestrator_backup_'' @ timestamp @ ''.tar.gz''"

definition temp_dirname :: "string \<Rightarrow> string" where
  "temp_dirname timestamp = ''temp_'' @ timestamp"

subsection \<open>\<open>create_backup\<close>\<close>

text \<open>The body of the inner \<open>try\<close>: the first step that raises ends it.\<close>

definition backup_body ::
  "Faults \<Rightarrow> string \<Rightarrow> time \<Rightarrow> string list option \<Rightarrow> entry dict
     \<Rightarrow> (exn + unit) \<times> entry dict" where
  "backup_body flt timestamp now services fs =
     (case staging_step (configs_fail flt) fs of
        (Inl e, fs1) \<Rightarrow> (Inl e, fs1)
      | (Inr _, fs1) \<Rightarrow>
     (case staging_step (data_fail flt) fs1 of
        (Inl e, fs2) \<Rightarrow> (Inl e, fs2)
      | (Inr _, fs2) \<Rightarrow>
     (case staging_step (metadata_fail flt) fs2 of
        (Inl e, fs3) \<Rightarrow> (Inl e, fs3)
      | (Inr _, fs3) \<Rightarrow>
     (case create_archive (archive flt) now services (backup_filename timestamp) fs3 of
        (Inl e, fs4) \<Rightarrow> (Inl e, fs4)
      | (Inr _, fs4) \<Rightarrow> rmtree (rmtree_fails flt) (temp_dirname timestamp) fs4))))"

text \<open>
  The inner handler: remove the staging directory if it exists, then the archive if it
  exists.  A removal that raises ends the handler there.
\<close>

definition cleanup_on_error :: "Faults \<Rightarrow> string \<Rightarrow> entry dict \<Rightarrow> entry dict" where
  "cleanup_on_error flt timestamp fs =
     (case (if map_of fs (temp_dirname timestamp) \<noteq> None
            then rmtree (cleanup_rmtree_fails flt) (temp_dirname timestamp) fs
            else (Inr (), fs)) of
        (Inl e, fs1) \<Rightarrow> fs1
      | (Inr _, fs1) \<Rightarrow>
          (if map_of fs1 (backup_filename timestamp) \<noteq> None
           then snd (unlink (cleanup_unlink_fails flt) (backup_filename timestamp) fs1)
           else fs1))"

definition create_backup ::
  "Faults \<Rightarrow> string \<Rightarrow> time \<Rightarrow> string list option \<Rightarrow> entry dict
     \<Rightarrow> string option \<times> entry dict" where
  "create_backup flt timestamp now services fs =
     (case mkdir (mkdir_fails flt) now (temp_dirname timestamp) fs of
        (Inl e, fs1) \<Rightarrow> (None, fs1)
      | (Inr _, fs1) \<Rightarrow>
         (case backup_body flt timestamp now services fs1 of
            (Inr _, fs2) \<Rightarrow> (Some (backup_filename timestamp), fs2)
          | (Inl e, fs2) \<Rightarrow> (None, cleanup_on_error flt timestamp fs2)))"

subsection \<open>\<open>list_backups\<close>\<close>

text \<open>The pattern \<open>orchestrator_backup_*.tar.gz\<close>.\<close>

definition glob_match :: "string \<Rightarrow> bool" where
  "glob_match name =
     (27 \<le> length name \<and> take 20 name = ''orchestrator_backup_'' \<and>
      drop (length name - 7) name = ''.tar.gz'')"

record BackupInfo =
  bi_filename :: string
  bi_size :: nat
  bi_created_at :: time
  bi_services :: "string list"
  bi_orchestrator_version :: string

definition get_backup_metadata :: "entry \<Rightarrow> Metadata option" where
  "get_backup_metadata e = (case e of Dir _ _ \<Rightarrow> None | File f \<Rightarrow> af_metadata f)"

definition backup_info :: "string \<Rightarrow> entry \<Rightarrow> BackupInfo" where
  "backup_info name e =
     (let (size, mtime) = (case e of Dir s t \<Rightarrow> (s, t) | File f \<Rightarrow> (af_size f, af_mtime f));
          metadata = get_backup_metadata e
      in \<lparr>bi_filename = name, bi_size = size, bi_created_at = mtime,
          bi_services = (case metadata of
                           None \<Rightarrow> []
                         | Some m \<Rightarrow> (case md_services m of None \<Rightarrow> [] | Some ss \<Rightarrow> ss)),
          bi_orchestrator_version =
            (case metadata of
               None \<Rightarrow> ''unknown''
             | Some m \<Rightarrow> (case md_version m of None \<Rightarrow> ''unknown'' | Some v \<Rightarrow> v))\<rparr>)"

text \<open>Newest first; \<open>list.sort\<close> is stable, also with \<open>reverse=True\<close>.\<close>

definition list_backups :: "entry dict \<Rightarrow> BackupInfo list" where
  "list_backups fs =
     sort_key (\<lambda>b. - bi_created_at b)
       (map (\<lambda>(name, e). backup_info name e) (filter (\<lambda>(name, e). glob_match name) fs))"

section \<open>Example inputs\<close>

text \<open>
  A manager with one service \<open>web\<close>, whose running instance was discovered by its label
  and carries the name \<open>legacy_web\<close> in the engine.
\<close>

definition web_attrs :: Attrs where
  "web_attrs = \<lparr>a_name = ''legacy_web'', a_status = ''running'', a_image_tags = [''nginx:1.0''],
                a_image_id = ''sha256:0a1b'', a_created = ''2024-01-01T00:00:00Z''\<rparr>"

definition web_manager :: "rt_call list \<Rightarrow> World ContainerManager" where
  "web_manager rejects =
     \<lparr>containers = [(''web'', \<lparr>c_id = ''c1'', c_attrs = web_attrs\<rparr>)],
      network = Some ''homie_network'',
      world = \<lparr>w_containers = [(''c1'', web_attrs)], w_rejects = rejects\<rparr>,
      calls = []\<rparr>"

definition web_config :: ServiceConfig where
  "web_config = \<lparr>sc_image = ''nginx:2.0'', sc_restart_policy = ''unless-stopped'',
                 sc_environment = [], sc_labels = [], sc_volumes = [], sc_ports = [''8080:80'']\<rparr>"

text \<open>Ten services, the first \<open>healthy_n\<close> of them with a healthy verdict.\<close>

definition example_fleet :: "nat \<Rightarrow> HealthMonitor" where
  "example_fleet healthy_n =
     \<lparr>health_checks =
        map (\<lambda>(i, n). (n, \<lparr>hc_service = n,
                            hc_status = (if i < healthy_n then ''healthy'' else ''unhealthy''),
                            hc_message = None, hc_last_check = 0\<rparr>))
          (zip [0, 1, 2, 3, 4, 5, 6, 7, 8, 9]
               [''s0'', ''s1'', ''s2'', ''s3'', ''s4'', ''s5'', ''s6'', ''s7'', ''s8'', ''s9''])\<rparr>"

text \<open>
  Tasks with a job in the engine and a stale \<open>next_run\<close> of 100: one whose action
  raises, and one whose action returns if it finds \<open>last_run\<close> already set to 150.
\<close>

definition failing_task :: Task where
  "failing_task =
     \<lparr>task_id = ''t1'', task_name = ''T'', task_func = (\<lambda>_. Some (OtherException ''boom'')),
      task_schedule = ''5m'', task_enabled = True, last_run = None, next_run = Some 100,
      task_job = Some ''t1''\<rparr>"

definition observing_task :: Task where
  "observing_task =
     \<lparr>task_id = ''t2'', task_name = ''O'',
      task_func = (\<lambda>seen. if fst seen = Some 150 then None
                          else Some (OtherException ''last_run not set'')),
      task_schedule = ''5m'', task_enabled = True, last_run = None, next_run = Some 100,
      task_job = Some ''t2''\<rparr>"

definition empty_scheduler :: "string list Scheduler" where
  "empty_scheduler = \<lparr>engine = [], objects = [], tasks = [], bound = []\<rparr>"

text \<open>The scheduler after the task \<open>t1\<close>, every five minutes, has been added to it.\<close>

definition one_task_scheduler :: "string list Scheduler" where
  "one_task_scheduler =
     \<lparr>engine = [''t1''],
      objects = [\<lparr>task_id = ''t1'', task_name = ''T'', task_func = (\<lambda>_. None),
                  task_schedule = ''5m'', task_enabled = True, last_run = None,
                  next_run = Some 0, task_job = Some ''t1''\<rparr>],
      tasks = [(''t1'', 0)],
      bound = [(''t1'', 0)]\<rparr>"

section \<open>Properties\<close>

subsection \<open>Aggregate health\<close>

lemma healthy_count_card:
  assumes d: "distinct (map fst xs)"
  shows "card {s. \<exists>c. map_of xs s = Some c \<and> P c} = length (filter P (map snd xs))"
proof -
  have e: "{s. \<exists>c. map_of xs s = Some c \<and> P c} = fst ` set (filter (\<lambda>p. P (snd p)) xs)"
    using d by (force simp: map_of_eq_Some_iff image_iff)
  have d': "distinct (map fst (filter (\<lambda>p. P (snd p)) xs))"
    using d by (simp add: distinct_map_filter)
  have "card (fst ` set (filter (\<lambda>p. P (snd p)) xs)) = length (filter (\<lambda>p. P (snd p)) xs)"
    using d' by (metis distinct_card length_map set_map)
  moreover have "length (filter (\<lambda>p. P (snd p)) xs) = length (filter P (map snd xs))"
    by (induction xs) auto
  ultimately show ?thesis using e by simp
qed

lemma known_card:
  "distinct (map fst (health_checks hm)) \<Longrightarrow> card (known_services hm) = length (health_checks hm)"
  unfolding known_services_def by (metis distinct_card length_map set_map)

lemma healthy_card:
  "distinct (map fst (health_checks hm)) \<Longrightarrow>
   card (healthy_services hm) =
     length (filter (\<lambda>c. hc_status c = ''healthy'') (map snd (health_checks hm)))"
  unfolding healthy_services_def by (rule healthy_count_card)

lemma overall_healthy_counts:
  "oh_healthy (get_overall_health now hm) \<longleftrightarrow>
     (length (health_checks hm) = 0 \<or>
      8 / 10 \<le> real (length (filter (\<lambda>c. hc_status c = ''healthy'') (map snd (health_checks hm))))
                 / real (length (health_checks hm)))"
  by (simp add: get_overall_health_def get_all_health_checks_def Let_def)

text \<open>
  C5.  With one verdict per service, the aggregate is healthy exactly when no service is
  known or the healthy services are at least 0.8 of the known ones; with ten known
  services, eight healthy ones make it healthy and seven do not.
\<close>

theorem get_overall_health_threshold:
  assumes "distinct (map fst (health_checks hm))"
  shows "(oh_healthy (get_overall_health now hm) \<longleftrightarrow>
            (known_services hm = {} \<or>
             8 / 10 \<le> real (card (healthy_services hm)) / real (card (known_services hm))))
       \<and> (card (known_services hm) = 10 \<and> card (healthy_services hm) = 8
            \<longrightarrow> oh_healthy (get_overall_health now hm))
       \<and> (card (known_services hm) = 10 \<and> card (healthy_services hm) = 7
            \<longrightarrow> \<not> oh_healthy (get_overall_health now hm))"
proof -
  have k: "card (known_services hm) = length (health_checks hm)"
    using assms by (rule known_card)
  have h: "card (healthy_services hm) =
      length (filter (\<lambda>c. hc_status c = ''healthy'') (map snd (health_checks hm)))"
    using assms by (rule healthy_card)
  have e: "known_services hm = {} \<longleftrightarrow> length (health_checks hm) = 0"
    by (simp add: known_services_def)
  have main: "oh_healthy (get_overall_health now hm) \<longleftrightarrow>
            (known_services hm = {} \<or>
             8 / 10 \<le> real (card (healthy_services hm)) / real (card (known_services hm)))"
    unfolding overall_healthy_counts k h e ..
  have a: "card (known_services hm) = 10 \<and> card (healthy_services hm) = 8
            \<longrightarrow> oh_healthy (get_overall_health now hm)"
    unfolding main by simp
  have b: "card (known_services hm) = 10 \<and> card (healthy_services hm) = 7
            \<longrightarrow> \<not> oh_healthy (get_overall_health now hm)"
    unfolding main by (auto simp: known_services_def)
  from main a b show ?thesis by blast
qed

lemma fleet_distinct: "distinct (map fst (health_checks (example_fleet n)))"
  by (simp add: example_fleet_def)

lemma fleet_known: "card (known_services (example_fleet n)) = 10"
  unfolding known_card [OF fleet_distinct] by (simp add: example_fleet_def)

lemma fleet_healthy8: "card (healthy_services (example_fleet 8)) = 8"
  unfolding healthy_card [OF fleet_distinct] by (simp add: example_fleet_def)

lemma fleet_healthy7: "card (healthy_services (example_fleet 7)) = 7"
  unfolding healthy_card [OF fleet_distinct] by (simp add: example_fleet_def)

theorem get_overall_health_threshold_witness:
  "distinct (map fst (health_checks (example_fleet 8)))
   \<and> card (known_services (example_fleet 8)) = 10 \<and> card (healthy_services (example_fleet 8)) = 8
   \<and> oh_healthy (get_overall_health 0 (example_fleet 8))
   \<and> distinct (map fst (health_checks (example_fleet 7)))
   \<and> card (known_services (example_fleet 7)) = 10 \<and> card (healthy_services (example_fleet 7)) = 7
   \<and> \<not> oh_healthy (get_overall_health 0 (example_fleet 7))"
  using get_overall_health_threshold [OF fleet_distinct, of 0 8]
        get_overall_health_threshold [OF fleet_distinct, of 0 7]
        fleet_distinct fleet_known fleet_healthy8 fleet_healthy7
  by blast

subsection \<open>Health classification\<close>

lemma listed_container_entry: "listed_entry (container_entry c a)"
  by (simp add: listed_entry_def container_entry_def)

lemma listed_error_entry: "listed_entry (error_entry e)"
  by (simp add: listed_entry_def error_entry_def)

lemma list_entries_listed:
  assumes "list_entries rt items acc cm = (Inr result, cm')"
    and "\<forall>(s, i) \<in> set acc. listed_entry i"
  shows "\<forall>(s, i) \<in> set result. listed_entry i"
  using assms
proof (induction items arbitrary: acc cm)
  case Nil
  then show ?case by simp
next
  case (Cons p items)
  obtain s c where p: "p = (s, c)" by (cases p)
  have upd: "\<And>i. listed_entry i \<Longrightarrow> \<forall>(s', i') \<in> set (AList.update s i acc). listed_entry i'"
  proof -
    fix i assume i: "listed_entry i"
    show "\<forall>(s', i') \<in> set (AList.update s i acc). listed_entry i'"
    proof (clarify)
      fix s' i' assume m: "(s', i') \<in> set (AList.update s i acc)"
      then have "(s', i') \<in> set acc \<or> i' = i"
        by (induction acc) (auto split: if_splits)
      then show "listed_entry i'" using i Cons.prems(2) by auto
    qed
  qed
  show ?case
  proof (cases "invoke (ReloadCall (c_id c)) (rt_reload rt (c_id c)) cm")
    case (Pair r cm1)
    show ?thesis
    proof (cases r)
      case (Inl e)
      show ?thesis
      proof (cases e)
        case (DockerException msg)
        with Inl Pair p Cons.prems(1)
        have "list_entries rt items (AList.update s (error_entry msg) acc) cm1 = (Inr result, cm')"
          by simp
        then show ?thesis using Cons.IH upd [OF listed_error_entry] by blast
      next
        case (ValueError msg)
        with Inl Pair p Cons.prems(1) show ?thesis by simp
      next
        case (OtherException msg)
        with Inl Pair p Cons.prems(1) show ?thesis by simp
      qed
    next
      case (Inr attrs)
      with Pair p Cons.prems(1)
      have "list_entries rt items (AList.update s (container_entry c attrs) acc)
              (cm1\<lparr>containers := AList.update s (c\<lparr>c_attrs := attrs\<rparr>) (containers cm1)\<rparr>)
            = (Inr result, cm')"
        by simp
      then show ?thesis using Cons.IH upd [OF listed_container_entry] by blast
    qed
  qed
qed

lemma list_containers_listed:
  "list_containers rt cm = (Inr result, cm') \<Longrightarrow> map_of result s = Some i \<Longrightarrow> listed_entry i"
  using list_entries_listed [of rt "containers cm" "[]" cm result cm']
  by (auto simp: list_containers_def dest!: map_of_SomeD)

lemma list_entries_distinct:
  "list_entries rt items acc cm = (Inr result, cm') \<Longrightarrow> distinct (map fst acc)
     \<Longrightarrow> distinct (map fst result)"
proof (induction items arbitrary: acc cm)
  case Nil
  then show ?case by simp
next
  case (Cons p items)
  obtain s c where p: "p = (s, c)" by (cases p)
  from Cons.prems(1) p show ?case
    by (auto split: prod.splits sum.splits exn.splits
             intro: Cons.IH distinct_update [OF Cons.prems(2)])
qed

lemma list_containers_distinct:
  "list_containers rt cm = (Inr result, cm') \<Longrightarrow> distinct (map fst result)"
  using list_entries_distinct [of rt "containers cm" "[]" cm result cm']
  by (simp add: list_containers_def)

lemma classify_fst:
  "fst (classify entry) =
     (let status = (case map_of entry ''status'' of None \<Rightarrow> ''unknown'' | Some s \<Rightarrow> s)
      in if status = ''running'' then ''healthy''
         else if status = ''restarting'' then ''warning''
         else if status = ''stopped'' \<or> status = ''exited'' then ''unhealthy''
         else if map_of entry ''error'' \<noteq> None then ''error''
         else ''unknown'')"
  by (simp add: classify_def Let_def split: option.split)

lemma classify_spec:
  assumes "listed_entry entry"
  shows "spec_verdict entry (fst (classify entry))"
    and "spec_verdict entry v \<Longrightarrow> v = fst (classify entry)"
proof -
  show "spec_verdict entry (fst (classify entry))"
  proof (cases "map_of entry ''status''")
    case None
    then show ?thesis using assms
      by (simp add: classify_fst spec_verdict_def listed_entry_def Let_def)
  next
    case (Some s)
    then show ?thesis using assms
      by (simp add: classify_fst spec_verdict_def listed_entry_def Let_def)
  qed
  show "spec_verdict entry v \<Longrightarrow> v = fst (classify entry)"
  proof (cases "map_of entry ''status''")
    case None
    assume "spec_verdict entry v"
    then show ?thesis using assms None
      by (simp add: classify_fst spec_verdict_def listed_entry_def Let_def)
  next
    case (Some s)
    assume sv: "spec_verdict entry v"
    have le: "map_of entry ''error'' = None \<or> s = ''error''"
      using assms Some by (simp add: listed_entry_def)
    consider (run) "s = ''running''" | (res) "s = ''restarting''" | (sto) "s = ''stopped''"
      | (exi) "s = ''exited''"
      | (oth) "s \<noteq> ''running''" "s \<noteq> ''restarting''" "s \<noteq> ''stopped''" "s \<noteq> ''exited''"
      by blast
    then show ?thesis
    proof cases
      case run
      with sv le Some show ?thesis
        by (simp add: classify_fst spec_verdict_def Let_def)
    next
      case res
      with sv le Some show ?thesis
        by (simp add: classify_fst spec_verdict_def Let_def)
    next
      case sto
      with sv le Some show ?thesis
        by (simp add: classify_fst spec_verdict_def Let_def)
    next
      case exi
      with sv le Some show ?thesis
        by (simp add: classify_fst spec_verdict_def Let_def)
    next
      case oth
      with sv le Some show ?thesis
        by (cases "map_of entry ''error''") (simp_all add: classify_fst spec_verdict_def Let_def)
    qed
  qed
qed

lemma check_health_lookup:
  "map_of (health_checks (check_container_health now s i hm)) s' =
     (if s' = s then Some \<lparr>hc_service = s, hc_status = fst (classify i),
                            hc_message = Some (snd (classify i)), hc_last_check = now\<rparr>
      else map_of (health_checks hm) s')"
  by (simp add: check_container_health_def Let_def update_conv' split: prod.splits)

lemma check_health_distinct:
  "distinct (map fst (health_checks hm)) \<Longrightarrow>
   distinct (map fst (health_checks (check_container_health now s i hm)))"
  by (simp add: check_container_health_def Let_def distinct_update split: prod.splits)

lemma perform_distinct:
  "distinct (map fst (health_checks hm)) \<Longrightarrow>
   distinct (map fst (health_checks (perform_health_checks now result hm)))"
  by (induction result arbitrary: hm) (auto simp: check_health_distinct)

lemma perform_other:
  "s \<notin> fst ` set result \<Longrightarrow>
   map_of (health_checks (perform_health_checks now result hm)) s = map_of (health_checks hm) s"
  by (induction result arbitrary: hm) (auto simp: check_health_lookup)

lemma perform_lookup:
  "distinct (map fst result) \<Longrightarrow> map_of result s = Some i \<Longrightarrow>
   map_of (health_checks (perform_health_checks now result hm)) s =
     Some \<lparr>hc_service = s, hc_status = fst (classify i),
           hc_message = Some (snd (classify i)), hc_last_check = now\<rparr>"
proof (induction result arbitrary: hm)
  case Nil
  then show ?case by simp
next
  case (Cons p result)
  obtain s' i' where p: "p = (s', i')" by (cases p)
  show ?case
  proof (cases "s' = s")
    case True
    with Cons.prems p have "i' = i" and "s \<notin> fst ` set result" by auto
    then show ?thesis using p True by (simp add: perform_other check_health_lookup)
  next
    case False
    with Cons p show ?thesis by simp
  qed
qed

text \<open>
  C8.  For every entry that \<open>list_containers\<close> returns, a health pass leaves for that
  service a verdict whose status is the one the five rules give (running: healthy,
  restarting: warning, stopped or exited: unhealthy, error field: error, otherwise
  unknown), and no other status satisfies the rules; the verdict replaces the earlier one,
  so each service keeps exactly one verdict.
\<close>

theorem health_pass_classifies:
  assumes "fst (list_containers rt cm) = Inr result"
    and "map_of result service_name = Some entry"
    and "distinct (map fst (health_checks hm))"
  shows "(\<exists>check. map_of (health_checks (perform_health_checks now result hm)) service_name
                    = Some check
                \<and> hc_service check = service_name \<and> hc_last_check check = now
                \<and> spec_verdict entry (hc_status check)
                \<and> (\<forall>v. spec_verdict entry v \<longrightarrow> v = hc_status check))
       \<and> distinct (map fst (health_checks (perform_health_checks now result hm)))"
proof -
  obtain cm' where lc: "list_containers rt cm = (Inr result, cm')"
    using assms(1) by (cases "list_containers rt cm") simp
  have l: "listed_entry entry"
    using lc assms(2) by (rule list_containers_listed)
  have d: "distinct (map fst result)"
    using lc by (rule list_containers_distinct)
  let ?check = "\<lparr>hc_service = service_name, hc_status = fst (classify entry),
                  hc_message = Some (snd (classify entry)), hc_last_check = now\<rparr>"
  have m: "map_of (health_checks (perform_health_checks now result hm)) service_name
             = Some ?check"
    using d assms(2) by (rule perform_lookup)
  have s1: "spec_verdict entry (hc_status ?check)"
    using classify_spec(1) [OF l] by simp
  have s2: "\<forall>v. spec_verdict entry v \<longrightarrow> v = hc_status ?check"
  proof (intro allI impI)
    fix v
    assume "spec_verdict entry v"
    then have "v = fst (classify entry)"
      by (rule classify_spec(2) [OF l])
    then show "v = hc_status ?check" by simp
  qed
  have e: "\<exists>check. map_of (health_checks (perform_health_checks now result hm)) service_name
                    = Some check
                \<and> hc_service check = service_name \<and> hc_last_check check = now
                \<and> spec_verdict entry (hc_status check)
                \<and> (\<forall>v. spec_verdict entry v \<longrightarrow> v = hc_status check)"
  proof (intro exI conjI)
    show "map_of (health_checks (perform_health_checks now result hm)) service_name
            = Some ?check"
      by (rule m)
    show "hc_service ?check = service_name" by simp
    show "hc_last_check ?check = now" by simp
    show "spec_verdict entry (hc_status ?check)" by (rule s1)
    show "\<forall>v. spec_verdict entry v \<longrightarrow> v = hc_status ?check" by (rule s2)
  qed
  show ?thesis
    using e perform_distinct [OF assms(3), of now result] by (rule conjI)
qed

lemma web_listing:
  "fst (list_containers docker_sim (web_manager [])) =
     Inr [(''web'', [(''id'', ''c1''), (''name'', ''legacy_web''), (''status'', ''running''),
                     (''image'', ''nginx:1.0''), (''created'', ''2024-01-01T00:00:00Z'')])]"
  by (simp add: list_containers_def web_manager_def web_attrs_def docker_sim_def invoke_def
        sim_reload_def container_entry_def)

theorem health_pass_classifies_witness:
  "fst (list_containers docker_sim (web_manager [])) =
     Inr [(''web'', [(''id'', ''c1''), (''name'', ''legacy_web''), (''status'', ''running''),
                     (''image'', ''nginx:1.0''), (''created'', ''2024-01-01T00:00:00Z'')])]
   \<and> distinct (map fst (health_checks \<lparr>health_checks = []\<rparr>))
   \<and> (\<exists>check. map_of (health_checks (perform_health_checks 7
                  [(''web'', [(''id'', ''c1''), (''name'', ''legacy_web''),
                              (''status'', ''running''), (''image'', ''nginx:1.0''),
                              (''created'', ''2024-01-01T00:00:00Z'')])]
                  \<lparr>health_checks = []\<rparr>)) ''web'' = Some check
         \<and> hc_status check = ''healthy''
         \<and> spec_verdict [(''id'', ''c1''), (''name'', ''legacy_web''), (''status'', ''running''),
                          (''image'', ''nginx:1.0''), (''created'', ''2024-01-01T00:00:00Z'')]
              (hc_status check))"
proof -
  let ?entry = "[(''id'', ''c1''), (''name'', ''legacy_web''), (''status'', ''running''),
                 (''image'', ''nginx:1.0''), (''created'', ''2024-01-01T00:00:00Z'')]"
  have d: "distinct (map fst (health_checks \<lparr>health_checks = []\<rparr>))" by simp
  have m: "map_of [(''web'', ?entry)] ''web'' = Some ?entry" by simp
  from health_pass_classifies [OF web_listing m d, of 7]
  obtain check where c:
    "map_of (health_checks (perform_health_checks 7 [(''web'', ?entry)]
       \<lparr>health_checks = []\<rparr>)) ''web'' = Some check"
    "spec_verdict ?entry (hc_status check)"
    "\<forall>v. spec_verdict ?entry v \<longrightarrow> v = hc_status check"
    by blast
  have "spec_verdict ?entry ''healthy''" by (simp add: spec_verdict_def)
  from c(3) [rule_format, OF this] have h: "hc_status check = ''healthy''" by (rule sym)
  have "\<exists>check. map_of (health_checks (perform_health_checks 7 [(''web'', ?entry)]
                  \<lparr>health_checks = []\<rparr>)) ''web'' = Some check
         \<and> hc_status check = ''healthy'' \<and> spec_verdict ?entry (hc_status check)"
    using c(1) h c(2) by (intro exI conjI)
  with web_listing d show ?thesis by (intro conjI)
qed

subsection \<open>Container manager: general facts\<close>

lemma invoke_fields:
  "invoke c f cm = (r, cm') \<Longrightarrow>
     containers cm' = containers cm \<and> network cm' = network cm \<and>
     calls cm' = calls cm @ [c] \<and> r = fst (f (world cm)) \<and> world cm' = snd (f (world cm))"
  by (auto simp: invoke_def split: prod.splits)

lemma except_docker_cases:
  "except_docker h (Inl e) = (case e of DockerException m \<Rightarrow> Inr (h m) | _ \<Rightarrow> Inl e)"
  by (cases e) simp_all

lemma except_docker_not_True [simp]:
  "except_docker (\<lambda>_. False) (Inl e) \<noteq> Inr True"
  by (cases e) simp_all

subsection \<open>Reads of unknown names\<close>

text \<open>
  C9, as amended.  For a name that is not in the registry the three reads return without
  an exception and without a call to the runtime: the status is \<open>unknown\<close>, the
  statistics are the null result, and the logs are the message \<open>Container not found\<close>.
\<close>

theorem unknown_name_reads:
  assumes "map_of (containers cm) service_name = None"
  shows "get_container_status rt service_name cm = (Inr ''unknown'', cm)
       \<and> get_container_logs rt service_name tail cm = (Inr ''Container not found'', cm)
       \<and> get_container_stats rt service_name cm = (Inr None, cm)"
  using assms
  by (simp add: get_container_status_def get_container_logs_def get_container_stats_def)

theorem unknown_name_reads_witness:
  "map_of (containers (web_manager [])) ''ghost'' = None
   \<and> get_container_status docker_sim ''ghost'' (web_manager []) = (Inr ''unknown'', web_manager [])
   \<and> get_container_logs docker_sim ''ghost'' 100 (web_manager [])
       = (Inr ''Container not found'', web_manager [])
   \<and> get_container_stats docker_sim ''ghost'' (web_manager []) = (Inr None, web_manager [])"
proof -
  have n: "map_of (containers (web_manager [])) ''ghost'' = None"
    by (simp add: web_manager_def)
  from unknown_name_reads [OF n, of docker_sim 100] n show ?thesis by simp
qed

text \<open>
  C9 as stated fails: for an unregistered name \<open>get_container_logs\<close> returns a string,
  where \<open>get_container_stats\<close> returns the null result.
\<close>

theorem logs_unknown_name_counterexample:
  "fst (get_container_logs docker_sim ''ghost'' 100 (web_manager [])) = Inr ''Container not found''
   \<and> fst (get_container_stats docker_sim ''ghost'' (web_manager [])) = Inr None"
  by (simp add: get_container_logs_def get_container_stats_def web_manager_def)

subsection \<open>Removal\<close>

lemma stop_container_fields:
  "stop_container rt n t cm = (r, cm') \<Longrightarrow>
     containers cm' = containers cm \<and> network cm' = network cm"
  by (auto simp: stop_container_def split: option.splits prod.splits sum.splits
           dest!: invoke_fields)

lemma stop_container_calls:
  "map_of (containers cm) n = Some c \<Longrightarrow>
     calls (snd (stop_container rt n t cm)) = calls cm @ [StopCall (c_id c) t]"
  by (auto simp: stop_container_def split: option.splits prod.splits sum.splits
           dest!: invoke_fields)

lemma stop_container_calls_none:
  "map_of (containers cm) n = None \<Longrightarrow> stop_container rt n t cm = (Inr False, cm)"
  by (simp add: stop_container_def)

lemma stop_if_running_fields:
  "stop_if_running rt n c cm = (r, cm') \<Longrightarrow>
     containers cm' = containers cm \<and> network cm' = network cm"
  by (auto simp: stop_if_running_def split: if_splits dest: stop_container_fields)

lemma stop_if_running_calls:
  "map_of (containers cm) n = Some c \<Longrightarrow>
     calls (snd (stop_if_running rt n c cm)) =
       calls cm @ (if c_status c = ''running'' then [StopCall (c_id c) 30] else [])"
  by (simp add: stop_if_running_def stop_container_calls)

lemma remove_container_unfold:
  "map_of (containers cm) n = Some c \<Longrightarrow>
   remove_container rt n force cm =
     (case stop_if_running rt n c cm of
        (Inl e, cm1) \<Rightarrow> (except_docker (\<lambda>_. False) (Inl e), cm1)
      | (Inr _, cm1) \<Rightarrow>
         (case invoke (RemoveCall (c_id c) force) (rt_remove rt (c_id c) force) cm1 of
            (Inl e, cm2) \<Rightarrow> (except_docker (\<lambda>_. False) (Inl e), cm2)
          | (Inr _, cm2) \<Rightarrow>
              (Inr True, cm2\<lparr>containers := AList.delete n (containers cm2)\<rparr>)))"
  by (simp add: remove_container_def stop_if_running_def)

text \<open>
  C10.  For a registered name, once the stop phase has returned: when the runtime's
  removal raises a Docker error the operation returns \<open>False\<close>; whenever the removal
  raises, the operation does not succeed and the registry is unchanged, the entry still
  present; the entry is deleted exactly when the runtime's removal has returned.
\<close>

theorem remove_failure_keeps_entry:
  assumes reg: "map_of (containers cm) service_name = Some container"
    and sp: "stop_if_running rt service_name container cm = (Inr b, cm1)"
  shows "(\<forall>e. fst (rt_remove rt (c_id container) force (world cm1)) = Inl (DockerException e)
            \<longrightarrow> fst (remove_container rt service_name force cm) = Inr False)
       \<and> (\<forall>x. fst (rt_remove rt (c_id container) force (world cm1)) = Inl x
            \<longrightarrow> fst (remove_container rt service_name force cm) \<noteq> Inr True
              \<and> containers (snd (remove_container rt service_name force cm)) = containers cm
              \<and> map_of (containers (snd (remove_container rt service_name force cm)))
                   service_name = Some container)
       \<and> (\<forall>u. fst (rt_remove rt (c_id container) force (world cm1)) = Inr u
            \<longrightarrow> fst (remove_container rt service_name force cm) = Inr True
              \<and> containers (snd (remove_container rt service_name force cm))
                   = AList.delete service_name (containers cm))"
proof -
  have c1: "containers cm1 = containers cm"
    using stop_if_running_fields [OF sp] by simp
  obtain r cm2 where inv:
    "invoke (RemoveCall (c_id container) force) (rt_remove rt (c_id container) force) cm1
       = (r, cm2)"
    by (cases "invoke (RemoveCall (c_id container) force)
                 (rt_remove rt (c_id container) force) cm1")
  have r: "r = fst (rt_remove rt (c_id container) force (world cm1))"
    and c2: "containers cm2 = containers cm1"
    using invoke_fields [OF inv] by simp_all
  have u: "remove_container rt service_name force cm =
     (case r of Inl e \<Rightarrow> (except_docker (\<lambda>_. False) (Inl e), cm2)
      | Inr _ \<Rightarrow> (Inr True, cm2\<lparr>containers := AList.delete service_name (containers cm2)\<rparr>))"
    by (simp add: remove_container_unfold [OF reg] sp inv split: sum.splits)
  show ?thesis
  proof (cases r)
    case (Inl x)
    then show ?thesis using u r c1 c2 reg by (cases x) auto
  next
    case (Inr v)
    then show ?thesis using u r c1 c2 by auto
  qed
qed


lemma web_registered:
  "map_of (containers (web_manager rejects)) ''web'' = Some \<lparr>c_id = ''c1'', c_attrs = web_attrs\<rparr>"
  by (simp add: web_manager_def)

lemma web_stop_phase:
  "fst (stop_if_running docker_sim ''web'' \<lparr>c_id = ''c1'', c_attrs = web_attrs\<rparr>
          (web_manager [RemoveCall ''c1'' False])) = Inr True"
  by (simp add: stop_if_running_def stop_container_def c_status_def web_manager_def
        web_attrs_def docker_sim_def invoke_def sim_signal_def)

lemma web_remove_rejected:
  "fst (rt_remove docker_sim ''c1'' False
          (world (snd (stop_if_running docker_sim ''web'' \<lparr>c_id = ''c1'', c_attrs = web_attrs\<rparr>
                         (web_manager [RemoveCall ''c1'' False])))))
     = Inl (DockerException ''500 Server Error'')"
  by (simp add: stop_if_running_def stop_container_def c_status_def web_manager_def
        web_attrs_def docker_sim_def invoke_def sim_signal_def sim_remove_def)

theorem remove_failure_keeps_entry_witness:
  "map_of (containers (web_manager [RemoveCall ''c1'' False])) ''web''
     = Some \<lparr>c_id = ''c1'', c_attrs = web_attrs\<rparr>
   \<and> fst (stop_if_running docker_sim ''web'' \<lparr>c_id = ''c1'', c_attrs = web_attrs\<rparr>
            (web_manager [RemoveCall ''c1'' False])) = Inr True
   \<and> fst (rt_remove docker_sim ''c1'' False
            (world (snd (stop_if_running docker_sim ''web'' \<lparr>c_id = ''c1'', c_attrs = web_attrs\<rparr>
                           (web_manager [RemoveCall ''c1'' False])))))
       = Inl (DockerException ''500 Server Error'')
   \<and> fst (remove_container docker_sim ''web'' False (web_manager [RemoveCall ''c1'' False]))
       = Inr False
   \<and> containers (snd (remove_container docker_sim ''web'' False
                         (web_manager [RemoveCall ''c1'' False])))
       = containers (web_manager [RemoveCall ''c1'' False])"
proof -
  let ?c = "\<lparr>c_id = ''c1'', c_attrs = web_attrs\<rparr>"
  let ?cm = "web_manager [RemoveCall ''c1'' False]"
  have sp: "stop_if_running docker_sim ''web'' ?c ?cm
              = (Inr True, snd (stop_if_running docker_sim ''web'' ?c ?cm))"
    using web_stop_phase by (metis prod.collapse)
  have rj: "fst (rt_remove docker_sim (c_id ?c) False
                  (world (snd (stop_if_running docker_sim ''web'' ?c ?cm))))
              = Inl (DockerException ''500 Server Error'')"
    using web_remove_rejected by simp
  from remove_failure_keeps_entry [OF web_registered sp, of False] rj
  have "fst (remove_container docker_sim ''web'' False ?cm) = Inr False"
    and "containers (snd (remove_container docker_sim ''web'' False ?cm)) = containers ?cm"
    by blast+
  with web_registered web_stop_phase web_remove_rejected show ?thesis by (intro conjI)
qed

subsection \<open>Stop before removal\<close>

text \<open>
  C2, as amended.  For a registered service whose instance is running, the runtime
  reporting it so and the status cached on its handle showing it, \<open>remove_container\<close>
  first attempts the stop with the default timeout, whether \<open>force\<close> is set or not, and
  then, unless the stop let an exception other than a Docker error through, attempts the
  removal carrying \<open>force\<close>; when the operation succeeds the registry entry is gone.
\<close>

theorem remove_stops_running_first:
  assumes reg: "map_of (containers cm) service_name = Some container"
    and live: "fst (rt_reload rt (c_id container) (world cm)) = Inr attrs"
      "a_status attrs = ''running''"
    and cached: "c_status container = ''running''"
  shows "calls (snd (remove_container rt service_name force cm)) =
           calls cm
           @ StopCall (c_id container) 30
             # (case fst (stop_container rt service_name 30 cm) of
                  Inl _ \<Rightarrow> [] | Inr _ \<Rightarrow> [RemoveCall (c_id container) force])
       \<and> (fst (remove_container rt service_name force cm) = Inr True
            \<longrightarrow> map_of (containers (snd (remove_container rt service_name force cm)))
                  service_name = None)"
proof -
  have sir: "stop_if_running rt service_name container cm
               = stop_container rt service_name 30 cm"
    using cached by (simp add: stop_if_running_def)
  obtain r1 cm1 where sp: "stop_container rt service_name 30 cm = (r1, cm1)"
    by (cases "stop_container rt service_name 30 cm")
  have k1: "calls cm1 = calls cm @ [StopCall (c_id container) 30]"
    using stop_container_calls [OF reg, of rt 30] sp by simp
  show ?thesis
  proof (cases r1)
    case (Inl e)
    then show ?thesis
      using sp k1 by (simp add: remove_container_unfold [OF reg] sir)
  next
    case (Inr b)
    obtain r cm2 where inv:
      "invoke (RemoveCall (c_id container) force) (rt_remove rt (c_id container) force) cm1
         = (r, cm2)"
      by (cases "invoke (RemoveCall (c_id container) force)
                   (rt_remove rt (c_id container) force) cm1")
    have k2: "calls cm2 = calls cm1 @ [RemoveCall (c_id container) force]"
      using invoke_fields [OF inv] by simp
    show ?thesis
    proof (cases r)
      case (Inl e)
      then show ?thesis
        using sp Inr inv k1 k2 by (simp add: remove_container_unfold [OF reg] sir)
    next
      case r: (Inr u)
      then show ?thesis
        using sp Inr inv k1 k2
        by (simp add: remove_container_unfold [OF reg] sir delete_conv')
    qed
  qed
qed

lemma web_forced_removal:
  "remove_container docker_sim ''web'' True (web_manager []) =
     (Inr True,
      \<lparr>containers = [], network = Some ''homie_network'',
       world = \<lparr>w_containers = [], w_rejects = []\<rparr>,
       calls = [StopCall ''c1'' 30, RemoveCall ''c1'' True]\<rparr>)"
  by (simp add: remove_container_def stop_container_def c_status_def web_manager_def
        web_attrs_def docker_sim_def invoke_def sim_signal_def sim_remove_def)

lemma web_live:
  "fst (rt_reload docker_sim (c_id \<lparr>c_id = ''c1'', c_attrs = web_attrs\<rparr>)
          (world (web_manager []))) = Inr web_attrs"
  by (simp add: docker_sim_def sim_reload_def web_manager_def)

lemma web_running:
  "a_status web_attrs = ''running''"
  "c_status \<lparr>c_id = ''c1'', c_attrs = web_attrs\<rparr> = ''running''"
  by (simp_all add: c_status_def web_attrs_def)

lemma web_stop_returns:
  "fst (stop_container docker_sim ''web'' 30 (web_manager [])) = Inr True"
  by (simp add: stop_container_def web_manager_def web_attrs_def docker_sim_def invoke_def
        sim_signal_def)

theorem remove_stops_running_first_witness:
  "map_of (containers (web_manager [])) ''web'' = Some \<lparr>c_id = ''c1'', c_attrs = web_attrs\<rparr>
   \<and> fst (rt_reload docker_sim (c_id \<lparr>c_id = ''c1'', c_attrs = web_attrs\<rparr>)
            (world (web_manager []))) = Inr web_attrs
   \<and> a_status web_attrs = ''running''
   \<and> c_status \<lparr>c_id = ''c1'', c_attrs = web_attrs\<rparr> = ''running''
   \<and> calls (snd (remove_container docker_sim ''web'' True (web_manager [])))
       = [StopCall ''c1'' 30, RemoveCall ''c1'' True]
   \<and> fst (remove_container docker_sim ''web'' True (web_manager [])) = Inr True
   \<and> map_of (containers (snd (remove_container docker_sim ''web'' True (web_manager []))))
        ''web'' = None"
proof -
  note th = remove_stops_running_first
    [OF web_registered [of "[]"] web_live web_running, of True]
  have k: "calls (snd (remove_container docker_sim ''web'' True (web_manager [])))
       = [StopCall ''c1'' 30, RemoveCall ''c1'' True]"
    using th [THEN conjunct1] by (simp add: web_stop_returns) (simp add: web_manager_def)
  have s: "fst (remove_container docker_sim ''web'' True (web_manager [])) = Inr True"
    by (simp add: web_forced_removal)
  have g: "map_of (containers (snd (remove_container docker_sim ''web'' True (web_manager []))))
        ''web'' = None"
    using th [THEN conjunct2] s by simp
  from web_registered [of "[]"] web_live web_running k s g show ?thesis by (intro conjI)
qed

text \<open>
  C2 as stated fails: with \<open>force\<close> set and a running instance, the stop is attempted
  before the forced removal.
\<close>

theorem forced_removal_stops_first_counterexample:
  "c_status \<lparr>c_id = ''c1'', c_attrs = web_attrs\<rparr> = ''running''
   \<and> map_of (containers (web_manager [])) ''web'' = Some \<lparr>c_id = ''c1'', c_attrs = web_attrs\<rparr>
   \<and> calls (web_manager []) = []
   \<and> calls (snd (remove_container docker_sim ''web'' True (web_manager [])))
       = [StopCall ''c1'' 30, RemoveCall ''c1'' True]"
  by (simp add: web_forced_removal web_registered)
     (simp add: c_status_def web_attrs_def web_manager_def)

subsection \<open>Creation\<close>

lemma create_container_registry_free:
  "fst (create_container rt service_name config (cm\<lparr>containers := regs\<rparr>))
     = fst (create_container rt service_name config cm)"
  by (simp add: create_container_def invoke_def split: sum.splits prod.splits option.splits)

lemma create_container_effect:
  "(fst (create_container rt service_name config cm) = Inr True
      \<longleftrightarrow> (\<exists>cfg container.
             prepare_container_config service_name config = Inr cfg
           \<and> fst (rt_create rt cfg (world cm)) = Inr container
           \<and> (\<forall>net. network cm = Some net
                \<longrightarrow> fst (rt_connect rt net (c_id container)
                           (snd (rt_create rt cfg (world cm)))) = Inr ())))
   \<and> (fst (create_container rt service_name config cm) = Inr True
      \<longrightarrow> (\<exists>cfg container.
             prepare_container_config service_name config = Inr cfg
           \<and> fst (rt_create rt cfg (world cm)) = Inr container
           \<and> containers (snd (create_container rt service_name config cm))
               = AList.update service_name container (containers cm)))
   \<and> (fst (create_container rt service_name config cm) \<noteq> Inr True
      \<longrightarrow> containers (snd (create_container rt service_name config cm)) = containers cm)
   \<and> (\<forall>cfg e. prepare_container_config service_name config = Inr cfg
           \<and> fst (rt_create rt cfg (world cm)) = Inl (DockerException e)
      \<longrightarrow> fst (create_container rt service_name config cm) = Inr False)
   \<and> (\<forall>cfg container net e.
           prepare_container_config service_name config = Inr cfg
         \<and> fst (rt_create rt cfg (world cm)) = Inr container
         \<and> network cm = Some net
         \<and> fst (rt_connect rt net (c_id container) (snd (rt_create rt cfg (world cm))))
             = Inl (DockerException e)
      \<longrightarrow> fst (create_container rt service_name config cm) = Inr False)
   \<and> (\<forall>regs. fst (create_container rt service_name config (cm\<lparr>containers := regs\<rparr>))
              = fst (create_container rt service_name config cm))"
proof (cases "prepare_container_config service_name config")
  case (Inl e)
  then show ?thesis
    by (simp add: create_container_registry_free) (simp add: create_container_def)
next
  case (Inr cfg)
  obtain r1 cm1 where i1: "invoke (CreateCall (cc_name cfg)) (rt_create rt cfg) cm = (r1, cm1)"
    by (cases "invoke (CreateCall (cc_name cfg)) (rt_create rt cfg) cm")
  have f1: "containers cm1 = containers cm" "network cm1 = network cm"
      "world cm1 = snd (rt_create rt cfg (world cm))"
    and r1: "fst (rt_create rt cfg (world cm)) = r1"
    using invoke_fields [OF i1] by simp_all
  show ?thesis
  proof (cases r1)
    case e: (Inl e)
    show ?thesis
      using Inr i1 [unfolded e] f1 r1 [unfolded e]
      by (cases e)
         (simp_all add: create_container_registry_free, simp_all add: create_container_def)
  next
    case c: (Inr container)
    show ?thesis
    proof (cases "network cm")
      case None
      show ?thesis
        using Inr i1 [unfolded c] f1 r1 [unfolded c] None
        by (simp add: create_container_registry_free) (simp add: create_container_def)
    next
      case (Some net)
      obtain r2 cm2 where i2:
        "invoke (ConnectCall net (c_id container)) (rt_connect rt net (c_id container)) cm1
           = (r2, cm2)"
        by (cases "invoke (ConnectCall net (c_id container))
                     (rt_connect rt net (c_id container)) cm1")
      have f2: "containers cm2 = containers cm1"
        and r2: "fst (rt_connect rt net (c_id container)
                        (snd (rt_create rt cfg (world cm)))) = r2"
        using invoke_fields [OF i2] f1(3) by simp_all
      show ?thesis
      proof (cases r2)
        case x: (Inl x)
        show ?thesis
          using Inr i1 [unfolded c] f1 r1 [unfolded c] Some i2 [unfolded x] f2 r2 [unfolded x]
          by (cases x)
             (simp_all add: create_container_registry_free,
              simp_all add: create_container_def)
      next
        case u: (Inr u)
        show ?thesis
          using Inr i1 [unfolded c] f1 r1 [unfolded c] Some i2 [unfolded u] f2 r2 [unfolded u]
          by (simp add: create_container_registry_free) (simp add: create_container_def)
      qed
    qed
  qed
qed

text \<open>
  C3, as amended.  \<open>create_container\<close> does not consult the registry: its result is the
  same whatever the registry holds.  It succeeds exactly when the launch specification
  can be prepared, the runtime creates the instance and, where a network is set, attaches
  it.  It returns \<open>False\<close> when the runtime refuses the creation or the attachment with a
  Docker error.  When it does not succeed the registry is unchanged; when it succeeds the
  entry for the name is the instance the runtime created, replacing any earlier entry.
\<close>

theorem create_registers_on_success_only:
  "(fst (create_container rt service_name config cm) = Inr True
      \<longleftrightarrow> (\<exists>cfg container.
             prepare_container_config service_name config = Inr cfg
           \<and> fst (rt_create rt cfg (world cm)) = Inr container
           \<and> (\<forall>net. network cm = Some net
                \<longrightarrow> fst (rt_connect rt net (c_id container)
                           (snd (rt_create rt cfg (world cm)))) = Inr ())))
   \<and> (fst (create_container rt service_name config cm) = Inr True
      \<longrightarrow> (\<exists>cfg container.
             prepare_container_config service_name config = Inr cfg
           \<and> fst (rt_create rt cfg (world cm)) = Inr container
           \<and> containers (snd (create_container rt service_name config cm))
               = AList.update service_name container (containers cm)))
   \<and> (fst (create_container rt service_name config cm) \<noteq> Inr True
      \<longrightarrow> containers (snd (create_container rt service_name config cm)) = containers cm)
   \<and> (\<forall>cfg e. prepare_container_config service_name config = Inr cfg
           \<and> fst (rt_create rt cfg (world cm)) = Inl (DockerException e)
      \<longrightarrow> fst (create_container rt service_name config cm) = Inr False)
   \<and> (\<forall>cfg container net e.
           prepare_container_config service_name config = Inr cfg
         \<and> fst (rt_create rt cfg (world cm)) = Inr container
         \<and> network cm = Some net
         \<and> fst (rt_connect rt net (c_id container) (snd (rt_create rt cfg (world cm))))
             = Inl (DockerException e)
      \<longrightarrow> fst (create_container rt service_name config cm) = Inr False)
   \<and> (\<forall>regs. fst (create_container rt service_name config (cm\<lparr>containers := regs\<rparr>))
              = fst (create_container rt service_name config cm))"
  by (rule create_container_effect)

lemma web_create:
  "create_container docker_sim ''web'' web_config (web_manager []) =
     (Inr True,
      \<lparr>containers =
         [(''web'', \<lparr>c_id = ''id_homie_web'',
                     c_attrs = \<lparr>a_name = ''homie_web'', a_status = ''created'',
                                 a_image_tags = [''nginx:2.0''],
                                 a_image_id = ''sha256:nginx:2.0'',
                                 a_created = ''2024-01-01T00:00:00Z''\<rparr>\<rparr>)],
       network = Some ''homie_network'',
       world = \<lparr>w_containers =
                  [(''c1'', web_attrs),
                   (''id_homie_web'',
                    \<lparr>a_name = ''homie_web'', a_status = ''created'',
                      a_image_tags = [''nginx:2.0''], a_image_id = ''sha256:nginx:2.0'',
                      a_created = ''2024-01-01T00:00:00Z''\<rparr>)],
                w_rejects = []\<rparr>,
       calls = [CreateCall ''homie_web'', ConnectCall ''homie_network'' ''id_homie_web'']\<rparr>)"
  by (simp add: create_container_def prepare_container_config_def web_config_def
        web_manager_def web_attrs_def docker_sim_def invoke_def sim_create_def sim_plain_def
        Let_def)

lemma web_prepared:
  "prepare_container_config ''web'' web_config =
     Inr \<lparr>cc_image = ''nginx:2.0'', cc_name = ''homie_web'',
          cc_restart_policy = ''unless-stopped'',
          cc_labels = [(''io.homie.managed'', ''true''), (''io.homie.service'', ''web'')],
          cc_environment = None, cc_volumes = None,
          cc_ports = Some [(''80/tcp'', ''8080'')]\<rparr>"
  by (simp add: prepare_container_config_def web_config_def Let_def)

lemma web_create_refused:
  "fst (rt_create docker_sim
          \<lparr>cc_image = ''nginx:2.0'', cc_name = ''homie_web'',
           cc_restart_policy = ''unless-stopped'',
           cc_labels = [(''io.homie.managed'', ''true''), (''io.homie.service'', ''web'')],
           cc_environment = None, cc_volumes = None,
           cc_ports = Some [(''80/tcp'', ''8080'')]\<rparr>
          (world (web_manager [CreateCall ''homie_web''])))
     = Inl (DockerException ''500 Server Error'')"
  by (simp add: docker_sim_def sim_create_def web_manager_def)

lemma web_created:
  "fst (rt_create docker_sim
          \<lparr>cc_image = ''nginx:2.0'', cc_name = ''homie_web'',
           cc_restart_policy = ''unless-stopped'',
           cc_labels = [(''io.homie.managed'', ''true''), (''io.homie.service'', ''web'')],
           cc_environment = None, cc_volumes = None,
           cc_ports = Some [(''80/tcp'', ''8080'')]\<rparr>
          (world (web_manager rejects)))
     = (if CreateCall ''homie_web'' \<in> set rejects
        then Inl (DockerException ''500 Server Error'')
        else Inr \<lparr>c_id = ''id_homie_web'',
                  c_attrs = \<lparr>a_name = ''homie_web'', a_status = ''created'',
                              a_image_tags = [''nginx:2.0''],
                              a_image_id = ''sha256:nginx:2.0'',
                              a_created = ''2024-01-01T00:00:00Z''\<rparr>\<rparr>)"
  by (simp add: docker_sim_def sim_create_def web_manager_def web_attrs_def Let_def)

lemma web_connect_refused:
  "network (web_manager [ConnectCall ''homie_network'' ''id_homie_web'']) = Some ''homie_network''
   \<and> fst (rt_connect docker_sim ''homie_network''
            (c_id \<lparr>c_id = ''id_homie_web'',
                   c_attrs = \<lparr>a_name = ''homie_web'', a_status = ''created'',
                               a_image_tags = [''nginx:2.0''],
                               a_image_id = ''sha256:nginx:2.0'',
                               a_created = ''2024-01-01T00:00:00Z''\<rparr>\<rparr>)
            (snd (rt_create docker_sim
                    \<lparr>cc_image = ''nginx:2.0'', cc_name = ''homie_web'',
                     cc_restart_policy = ''unless-stopped'',
                     cc_labels = [(''io.homie.managed'', ''true''),
                                  (''io.homie.service'', ''web'')],
                     cc_environment = None, cc_volumes = None,
                     cc_ports = Some [(''80/tcp'', ''8080'')]\<rparr>
                    (world (web_manager [ConnectCall ''homie_network'' ''id_homie_web''])))))
       = Inl (DockerException ''500 Server Error'')"
  by (simp add: docker_sim_def sim_create_def sim_plain_def web_manager_def web_attrs_def
        Let_def)

theorem create_registers_on_success_only_witness:
  "fst (create_container docker_sim ''web'' web_config (web_manager [CreateCall ''homie_web'']))
     = Inr False
   \<and> containers (snd (create_container docker_sim ''web'' web_config
                         (web_manager [CreateCall ''homie_web''])))
       = containers (web_manager [CreateCall ''homie_web''])
   \<and> fst (create_container docker_sim ''web'' web_config
            (web_manager [ConnectCall ''homie_network'' ''id_homie_web''])) = Inr False
   \<and> containers (snd (create_container docker_sim ''web'' web_config
                         (web_manager [ConnectCall ''homie_network'' ''id_homie_web''])))
       = containers (web_manager [ConnectCall ''homie_network'' ''id_homie_web''])
   \<and> fst (create_container docker_sim ''web'' web_config (web_manager [])) = Inr True
   \<and> (\<exists>cfg container.
         prepare_container_config ''web'' web_config = Inr cfg
       \<and> fst (rt_create docker_sim cfg (world (web_manager []))) = Inr container
       \<and> containers (snd (create_container docker_sim ''web'' web_config (web_manager [])))
           = AList.update ''web'' container (containers (web_manager [])))
   \<and> fst (create_container docker_sim ''web'' web_config ((web_manager [])\<lparr>containers := []\<rparr>))
       = Inr True"
proof -
  let ?cr = "web_manager [CreateCall ''homie_web'']"
  let ?cn = "web_manager [ConnectCall ''homie_network'' ''id_homie_web'']"
  note t1 = create_registers_on_success_only [of docker_sim "''web''" web_config ?cr]
  note t2 = create_registers_on_success_only [of docker_sim "''web''" web_config ?cn]
  note t3 = create_registers_on_success_only [of docker_sim "''web''" web_config "web_manager []"]
  have a: "fst (create_container docker_sim ''web'' web_config ?cr) = Inr False"
    using t1 web_prepared web_create_refused by blast
  then have a': "fst (create_container docker_sim ''web'' web_config ?cr) \<noteq> Inr True"
    by simp
  have b: "containers (snd (create_container docker_sim ''web'' web_config ?cr))
             = containers ?cr"
    using t1 a' by blast
  have cr: "fst (rt_create docker_sim
          \<lparr>cc_image = ''nginx:2.0'', cc_name = ''homie_web'',
           cc_restart_policy = ''unless-stopped'',
           cc_labels = [(''io.homie.managed'', ''true''), (''io.homie.service'', ''web'')],
           cc_environment = None, cc_volumes = None,
           cc_ports = Some [(''80/tcp'', ''8080'')]\<rparr>
          (world ?cn))
     = Inr \<lparr>c_id = ''id_homie_web'',
                  c_attrs = \<lparr>a_name = ''homie_web'', a_status = ''created'',
                              a_image_tags = [''nginx:2.0''],
                              a_image_id = ''sha256:nginx:2.0'',
                              a_created = ''2024-01-01T00:00:00Z''\<rparr>\<rparr>"
    by (simp add: web_created)
  have c: "fst (create_container docker_sim ''web'' web_config ?cn) = Inr False"
    using t2 [THEN conjunct2, THEN conjunct2, THEN conjunct2, THEN conjunct2, THEN conjunct1,
              rule_format, OF conjI [OF web_prepared conjI [OF cr web_connect_refused]]] .
  then have c': "fst (create_container docker_sim ''web'' web_config ?cn) \<noteq> Inr True"
    by simp
  have d: "containers (snd (create_container docker_sim ''web'' web_config ?cn))
             = containers ?cn"
    using t2 c' by blast
  have e: "fst (create_container docker_sim ''web'' web_config (web_manager [])) = Inr True"
    by (simp add: web_create)
  from t3 e have f: "\<exists>cfg container.
         prepare_container_config ''web'' web_config = Inr cfg
       \<and> fst (rt_create docker_sim cfg (world (web_manager []))) = Inr container
       \<and> containers (snd (create_container docker_sim ''web'' web_config (web_manager [])))
           = AList.update ''web'' container (containers (web_manager []))"
    by blast
  from t3 e have g:
    "fst (create_container docker_sim ''web'' web_config ((web_manager [])\<lparr>containers := []\<rparr>))
       = Inr True"
    by simp
  from a b c d e f g show ?thesis by (intro conjI)
qed

text \<open>
  C3 as stated fails: \<open>web\<close> is registered with a running instance, yet creating it
  again succeeds and the registry entry is replaced by the new instance.
\<close>

theorem create_over_live_instance_counterexample:
  "map_of (containers (web_manager [])) ''web'' = Some \<lparr>c_id = ''c1'', c_attrs = web_attrs\<rparr>
   \<and> map_of (w_containers (world (web_manager []))) ''c1'' = Some web_attrs
   \<and> a_status web_attrs = ''running''
   \<and> fst (create_container docker_sim ''web'' web_config (web_manager [])) = Inr True
   \<and> map_of (containers (snd (create_container docker_sim ''web'' web_config (web_manager []))))
        ''web''
       = Some \<lparr>c_id = ''id_homie_web'',
                c_attrs = \<lparr>a_name = ''homie_web'', a_status = ''created'',
                            a_image_tags = [''nginx:2.0''], a_image_id = ''sha256:nginx:2.0'',
                            a_created = ''2024-01-01T00:00:00Z''\<rparr>\<rparr>"
  by (simp add: web_create) (simp add: web_manager_def web_attrs_def)

subsection \<open>Update\<close>

lemma continues_refl: "continues lo hi cm cm"
  by (simp add: continues_def)

lemma continues_invoke:
  "invoke c f cm = (r, cm') \<Longrightarrow> continues (step_rank c) (step_rank c) cm cm'"
  by (auto simp: continues_def dest!: invoke_fields)

lemma continues_trans:
  assumes "continues a b cm cm1" and "continues c d cm1 cm2"
    and "b \<le> c" and "a \<le> c" and "b \<le> d"
  shows "continues a d cm cm2"
proof -
  from assms(1) obtain n1 where n1: "calls cm1 = calls cm @ n1" "sorted (map step_rank n1)"
    "\<forall>x \<in> set n1. a \<le> step_rank x \<and> step_rank x \<le> b"
    unfolding continues_def by blast
  from assms(2) obtain n2 where n2: "calls cm2 = calls cm1 @ n2" "sorted (map step_rank n2)"
    "\<forall>x \<in> set n2. c \<le> step_rank x \<and> step_rank x \<le> d"
    unfolding continues_def by blast
  have 1: "calls cm2 = calls cm @ (n1 @ n2)" using n1(1) n2(1) by simp
  have 2: "sorted (map step_rank (n1 @ n2))"
    using n1(2,3) n2(2,3) assms(3) by (fastforce simp: sorted_append)
  have 3: "\<forall>x \<in> set (n1 @ n2). a \<le> step_rank x \<and> step_rank x \<le> d"
    using n1(3) n2(3) assms(4,5) by fastforce
  from 1 2 3 show ?thesis unfolding continues_def by blast
qed

lemma continues_weaken:
  "continues a b cm cm' \<Longrightarrow> a' \<le> a \<Longrightarrow> b \<le> b' \<Longrightarrow> continues a' b' cm cm'"
  unfolding continues_def by fastforce

lemma stop_container_continues: "continues 0 0 cm (snd (stop_container rt n t cm))"
proof (cases "map_of (containers cm) n")
  case None
  then show ?thesis by (simp add: stop_container_def continues_refl)
next
  case (Some c)
  obtain r cm1 where i: "invoke (StopCall (c_id c) t) (rt_stop rt (c_id c) t) cm = (r, cm1)"
    by (cases "invoke (StopCall (c_id c) t) (rt_stop rt (c_id c) t) cm")
  have "snd (stop_container rt n t cm) = cm1"
    using Some i by (simp add: stop_container_def split: sum.splits)
  then show ?thesis using continues_invoke [OF i] by simp
qed

lemma start_container_continues: "continues 5 5 cm (snd (start_container rt n cm))"
proof (cases "map_of (containers cm) n")
  case None
  then show ?thesis by (simp add: start_container_def continues_refl)
next
  case (Some c)
  obtain r cm1 where i: "invoke (StartCall (c_id c)) (rt_start rt (c_id c)) cm = (r, cm1)"
    by (cases "invoke (StartCall (c_id c)) (rt_start rt (c_id c)) cm")
  have "snd (start_container rt n cm) = cm1"
    using Some i by (simp add: start_container_def split: sum.splits)
  then show ?thesis using continues_invoke [OF i] by simp
qed

lemma pull_image_continues: "continues 2 2 cm (snd (pull_image rt img cm))"
proof -
  obtain r cm1 where i: "invoke (PullCall img) (rt_pull rt img) cm = (r, cm1)"
    by (cases "invoke (PullCall img) (rt_pull rt img) cm")
  have "snd (pull_image rt img cm) = cm1"
    using i by (simp add: pull_image_def split: sum.splits)
  then show ?thesis using continues_invoke [OF i] by simp
qed

lemma pull_image_fields:
  "containers (snd (pull_image rt img cm)) = containers cm"
proof -
  obtain r cm1 where i: "invoke (PullCall img) (rt_pull rt img) cm = (r, cm1)"
    by (cases "invoke (PullCall img) (rt_pull rt img) cm")
  have "snd (pull_image rt img cm) = cm1"
    using i by (simp add: pull_image_def split: sum.splits)
  then show ?thesis using invoke_fields [OF i] by simp
qed

lemma continues_calls_eq:
  "continues a b cm cm1 \<Longrightarrow> calls cm2 = calls cm1 \<Longrightarrow> continues a b cm cm2"
  by (simp add: continues_def)

lemma remove_container_continues: "continues 0 1 cm (snd (remove_container rt n force cm))"
proof (cases "map_of (containers cm) n")
  case None
  then show ?thesis by (simp add: remove_container_def continues_refl)
next
  case (Some c)
  obtain r1 cm1 where sp: "stop_if_running rt n c cm = (r1, cm1)"
    by (cases "stop_if_running rt n c cm")
  have s: "continues 0 0 cm cm1"
    using sp stop_container_continues [of cm rt n 30]
    by (auto simp: stop_if_running_def continues_refl split: if_splits)
  show ?thesis
  proof (cases r1)
    case (Inl e)
    then have "snd (remove_container rt n force cm) = cm1"
      using sp by (simp add: remove_container_unfold [OF Some])
    then show ?thesis using continues_weaken [OF s, of 0 1] by simp
  next
    case (Inr b)
    obtain r cm2 where i:
      "invoke (RemoveCall (c_id c) force) (rt_remove rt (c_id c) force) cm1 = (r, cm2)"
      by (cases "invoke (RemoveCall (c_id c) force) (rt_remove rt (c_id c) force) cm1")
    have c2: "continues 1 1 cm1 cm2" using continues_invoke [OF i] by simp
    have c02: "continues 0 1 cm cm2"
      using continues_trans [OF s c2] by simp
    have "calls (snd (remove_container rt n force cm)) = calls cm2"
      using sp Inr i by (simp add: remove_container_unfold [OF Some] split: sum.splits)
    then show ?thesis using continues_calls_eq [OF c02] by simp
  qed
qed

lemma create_container_continues: "continues 3 4 cm (snd (create_container rt n config cm))"
proof (cases "prepare_container_config n config")
  case (Inl e)
  then show ?thesis by (simp add: create_container_def continues_refl)
next
  case (Inr cfg)
  obtain r1 cm1 where i1: "invoke (CreateCall (cc_name cfg)) (rt_create rt cfg) cm = (r1, cm1)"
    by (cases "invoke (CreateCall (cc_name cfg)) (rt_create rt cfg) cm")
  have c1: "continues 3 4 cm cm1"
    using continues_weaken [OF continues_invoke [OF i1], of 3 4] by simp
  show ?thesis
  proof (cases r1)
    case e: (Inl e)
    have "snd (create_container rt n config cm) = cm1"
      using Inr i1 [unfolded e] by (simp add: create_container_def)
    then show ?thesis using c1 by simp
  next
    case c: (Inr container)
    show ?thesis
    proof (cases "network cm1")
      case None
      have "calls (snd (create_container rt n config cm)) = calls cm1"
        using Inr i1 [unfolded c] None by (simp add: create_container_def)
      then show ?thesis using continues_calls_eq [OF c1] by simp
    next
      case (Some net)
      obtain r2 cm2 where i2:
        "invoke (ConnectCall net (c_id container)) (rt_connect rt net (c_id container)) cm1
           = (r2, cm2)"
        by (cases "invoke (ConnectCall net (c_id container))
                     (rt_connect rt net (c_id container)) cm1")
      have c2: "continues 4 4 cm1 cm2" using continues_invoke [OF i2] by simp
      have c02: "continues 3 4 cm cm2"
        using continues_trans [OF continues_weaken [OF continues_invoke [OF i1], of 3 3] c2]
        by simp
      have "calls (snd (create_container rt n config cm)) = calls cm2"
        using Inr i1 [unfolded c] Some i2 by (simp add: create_container_def split: sum.splits)
      then show ?thesis using continues_calls_eq [OF c02] by simp
    qed
  qed
qed

lemma update_container_continues:
  "continues 0 5 cm (snd (update_container rt n config cm))"
proof -
  let ?cm1 = "snd (stop_container rt n 30 cm)"
  let ?cm2 = "snd (remove_container rt n False ?cm1)"
  let ?cm3 = "snd (pull_image rt (sc_image config) ?cm2)"
  let ?cm4 = "snd (create_container rt n config ?cm3)"
  let ?cm5 = "snd (start_container rt n ?cm4)"
  have k1: "continues 0 5 cm ?cm1"
    using continues_weaken [OF stop_container_continues, of 0 5] by simp
  have k2: "continues 0 5 cm ?cm2"
    using continues_trans [OF stop_container_continues
            continues_weaken [OF remove_container_continues, of 0 5]] by simp
  have k3': "continues 0 2 cm ?cm3"
    using continues_trans [OF continues_trans [OF stop_container_continues
            remove_container_continues] pull_image_continues] by simp
  have k3: "continues 0 5 cm ?cm3"
    using continues_weaken [OF k3', of 0 5] by simp
  have k4': "continues 0 4 cm ?cm4"
    using continues_trans [OF k3' create_container_continues] by simp
  have k4: "continues 0 5 cm ?cm4"
    using continues_weaken [OF k4', of 0 5] by simp
  have k5: "continues 0 5 cm ?cm5"
    using continues_trans [OF k4' start_container_continues] by simp
  have "snd (update_container rt n config cm) \<in> {?cm1, ?cm2, ?cm3, ?cm4, ?cm5}"
    by (simp add: update_container_def split: prod.splits sum.splits)
  then show ?thesis using k1 k2 k3 k4 k5 by auto
qed

lemma remove_container_True:
  assumes "fst (remove_container rt n force cm) = Inr True"
  shows "map_of (containers (snd (remove_container rt n force cm))) n = None"
proof (cases "map_of (containers cm) n")
  case None
  then show ?thesis by (simp add: remove_container_def)
next
  case (Some c)
  obtain r1 cm1 where sp: "stop_if_running rt n c cm = (r1, cm1)"
    by (cases "stop_if_running rt n c cm")
  show ?thesis
  proof (cases r1)
    case (Inl e)
    then show ?thesis using assms sp by (simp add: remove_container_unfold [OF Some])
  next
    case (Inr b)
    obtain r cm2 where i:
      "invoke (RemoveCall (c_id c) force) (rt_remove rt (c_id c) force) cm1 = (r, cm2)"
      by (cases "invoke (RemoveCall (c_id c) force) (rt_remove rt (c_id c) force) cm1")
    show ?thesis
    proof (cases r)
      case e: (Inl e)
      then show ?thesis using assms sp Inr i
        by (simp add: remove_container_unfold [OF Some])
    next
      case u: (Inr u)
      then show ?thesis using sp Inr i
        by (simp add: remove_container_unfold [OF Some] delete_conv')
    qed
  qed
qed

lemma start_container_fields:
  "containers (snd (start_container rt n cm)) = containers cm"
proof (cases "map_of (containers cm) n")
  case None
  then show ?thesis by (simp add: start_container_def)
next
  case (Some c)
  obtain r cm1 where i: "invoke (StartCall (c_id c)) (rt_start rt (c_id c)) cm = (r, cm1)"
    by (cases "invoke (StartCall (c_id c)) (rt_start rt (c_id c)) cm")
  have "snd (start_container rt n cm) = cm1"
    using Some i by (simp add: start_container_def split: sum.splits)
  then show ?thesis using invoke_fields [OF i] by simp
qed

lemma case_result:
  "(case p of (Inl e, s) \<Rightarrow> f e s | (Inr x, s) \<Rightarrow> g x s)
     = (case fst p of Inl e \<Rightarrow> f e (snd p) | Inr x \<Rightarrow> g x (snd p))"
  by (cases p) (simp split: sum.splits)

lemma update_container_unfold:
  "update_container rt n config cm =
     (case fst (stop_container rt n 30 cm) of
        Inl e \<Rightarrow> (False, after_stop rt n cm)
      | Inr _ \<Rightarrow>
     (case fst (remove_container rt n False (after_stop rt n cm)) of
        Inl e \<Rightarrow> (False, after_remove rt n cm)
      | Inr _ \<Rightarrow>
     (case fst (pull_image rt (sc_image config) (after_remove rt n cm)) of
        Inl e \<Rightarrow> (False, before_create rt n config cm)
      | Inr _ \<Rightarrow>
     (case fst (create_container rt n config (before_create rt n config cm)) of
        Inl e \<Rightarrow> (False, after_create rt n config cm)
      | Inr _ \<Rightarrow>
     (case fst (start_container rt n (after_create rt n config cm)) of
        Inl e \<Rightarrow> (False, after_start rt n config cm)
      | Inr _ \<Rightarrow> (True, after_start rt n config cm))))))"
  unfolding update_container_def after_stop_def after_remove_def before_create_def
    after_create_def after_start_def case_result ..

lemmas sim_eval =
  docker_sim_def invoke_def sim_create_def sim_signal_def sim_remove_def sim_reload_def
  sim_plain_def web_manager_def web_attrs_def web_config_def c_status_def Let_def
  stop_container_def remove_container_def pull_image_def create_container_def
  start_container_def prepare_container_config_def get_container_status_def

lemma status_read_through:
  "fst (get_container_status rt n cm) = Inr s \<Longrightarrow>
     s = ''unknown'' \<or> s = ''error'' \<or>
     (\<exists>c a. map_of (containers cm) n = Some c \<and>
            fst (rt_reload rt (c_id c) (world cm)) = Inr a \<and> s = a_status a)"
proof (cases "map_of (containers cm) n")
  case None
  assume "fst (get_container_status rt n cm) = Inr s"
  with None show ?thesis by (simp add: get_container_status_def)
next
  case (Some c)
  assume a: "fst (get_container_status rt n cm) = Inr s"
  obtain r cm1 where i: "invoke (ReloadCall (c_id c)) (rt_reload rt (c_id c)) cm = (r, cm1)"
    by (cases "invoke (ReloadCall (c_id c)) (rt_reload rt (c_id c)) cm")
  have r: "fst (rt_reload rt (c_id c) (world cm)) = r"
    using invoke_fields [OF i] by simp
  show ?thesis
  proof (cases r)
    case e: (Inl e)
    show ?thesis using a Some i [unfolded e]
      by (cases e) (simp_all add: get_container_status_def)
  next
    case at: (Inr attrs)
    show ?thesis using a Some i [unfolded at] r [unfolded at]
      by (simp add: get_container_status_def)
  qed
qed

lemma update_create_fails:
  assumes s1: "fst (stop_container rt n 30 cm) = Inr True"
    and s2: "fst (remove_container rt n False (after_stop rt n cm)) = Inr True"
    and s3: "fst (pull_image rt (sc_image config) (after_remove rt n cm)) = Inr True"
    and s4: "fst (create_container rt n config (before_create rt n config cm)) \<noteq> Inr True"
  shows "snd (update_container rt n config cm) = after_create rt n config cm"
    and "map_of (containers (after_create rt n config cm)) n = None"
proof -
  have r: "map_of (containers (after_remove rt n cm)) n = None"
    unfolding after_remove_def using s2 by (rule remove_container_True)
  have b: "map_of (containers (before_create rt n config cm)) n = None"
    unfolding before_create_def pull_image_fields using r .
  have "containers (after_create rt n config cm) = containers (before_create rt n config cm)"
    unfolding after_create_def using s4 create_container_effect by blast
  then show c: "map_of (containers (after_create rt n config cm)) n = None"
    using b by simp
  then have st: "start_container rt n (after_create rt n config cm)
                   = (Inr False, after_create rt n config cm)"
    by (simp add: start_container_def)
  then have a5: "after_start rt n config cm = after_create rt n config cm"
    by (simp add: after_start_def)
  show "snd (update_container rt n config cm) = after_create rt n config cm"
    using s1 s2 s3 st a5
    by (cases "fst (create_container rt n config (before_create rt n config cm))")
       (simp_all add: update_container_unfold)
qed

lemma update_start_fails:
  assumes s1: "fst (stop_container rt n 30 cm) = Inr True"
    and s2: "fst (remove_container rt n False (after_stop rt n cm)) = Inr True"
    and s3: "fst (pull_image rt (sc_image config) (after_remove rt n cm)) = Inr True"
    and s4: "fst (create_container rt n config (before_create rt n config cm)) = Inr True"
  shows "snd (update_container rt n config cm) = after_start rt n config cm"
    and "\<exists>container. map_of (containers (after_start rt n config cm)) n = Some container"
proof -
  show "snd (update_container rt n config cm) = after_start rt n config cm"
    using s1 s2 s3 s4
    by (cases "fst (start_container rt n (after_create rt n config cm))")
       (simp_all add: update_container_unfold)
  obtain container where
    "containers (after_create rt n config cm)
       = AList.update n container (containers (before_create rt n config cm))"
    unfolding after_create_def using s4 create_container_effect by blast
  then have "map_of (containers (after_create rt n config cm)) n = Some container"
    by (simp add: update_conv')
  then show "\<exists>container. map_of (containers (after_start rt n config cm)) n = Some container"
    by (simp add: after_start_def start_container_fields)
qed

text \<open>
  C4, as amended.  The runtime calls of \<open>update_container\<close> come in the order stop,
  remove, pull, create (with the network attachment), start.  When all five steps succeed
  it returns \<open>True\<close> with the state they leave.  When stop, remove and pull have succeeded
  and the create step does not, the update ends in the state the create step left, the
  registry has no entry for the service and \<open>get_container_status\<close> returns
  \<open>unknown\<close>.  When the first four steps have succeeded and the start does not, the
  created instance is registered.  In every case the status returned afterwards is
  \<open>unknown\<close>, \<open>error\<close> or the status the runtime reports on reload.
\<close>

theorem update_container_sequence:
  "(\<exists>new. calls (snd (update_container rt service_name config cm)) = calls cm @ new
        \<and> sorted (map step_rank new) \<and> (\<forall>c \<in> set new. step_rank c \<le> 5))
   \<and> (fst (stop_container rt service_name 30 cm) = Inr True
        \<and> fst (remove_container rt service_name False (after_stop rt service_name cm))
            = Inr True
        \<and> fst (pull_image rt (sc_image config) (after_remove rt service_name cm)) = Inr True
        \<and> fst (create_container rt service_name config
                  (before_create rt service_name config cm)) = Inr True
        \<and> fst (start_container rt service_name (after_create rt service_name config cm))
            = Inr True
      \<longrightarrow> update_container rt service_name config cm
            = (True, after_start rt service_name config cm))
   \<and> (fst (stop_container rt service_name 30 cm) = Inr True
        \<and> fst (remove_container rt service_name False (after_stop rt service_name cm))
            = Inr True
        \<and> fst (pull_image rt (sc_image config) (after_remove rt service_name cm)) = Inr True
        \<and> fst (create_container rt service_name config
                  (before_create rt service_name config cm)) \<noteq> Inr True
      \<longrightarrow> snd (update_container rt service_name config cm)
            = after_create rt service_name config cm
        \<and> map_of (containers (snd (update_container rt service_name config cm)))
             service_name = None
        \<and> get_container_status rt service_name
             (snd (update_container rt service_name config cm))
            = (Inr ''unknown'', snd (update_container rt service_name config cm)))
   \<and> (fst (stop_container rt service_name 30 cm) = Inr True
        \<and> fst (remove_container rt service_name False (after_stop rt service_name cm))
            = Inr True
        \<and> fst (pull_image rt (sc_image config) (after_remove rt service_name cm)) = Inr True
        \<and> fst (create_container rt service_name config
                  (before_create rt service_name config cm)) = Inr True
        \<and> fst (start_container rt service_name (after_create rt service_name config cm))
            \<noteq> Inr True
      \<longrightarrow> snd (update_container rt service_name config cm)
            = after_start rt service_name config cm
        \<and> (\<exists>container. map_of (containers (snd (update_container rt service_name config cm)))
                          service_name = Some container))
   \<and> (\<forall>s. fst (get_container_status rt service_name
                  (snd (update_container rt service_name config cm))) = Inr s
        \<longrightarrow> s = ''unknown'' \<or> s = ''error'' \<or>
            (\<exists>c a. map_of (containers (snd (update_container rt service_name config cm)))
                      service_name = Some c
                 \<and> fst (rt_reload rt (c_id c)
                           (world (snd (update_container rt service_name config cm)))) = Inr a
                 \<and> s = a_status a))"
proof (intro conjI)
  let ?u = "update_container rt service_name config cm"
  show "\<exists>new. calls (snd ?u) = calls cm @ new
        \<and> sorted (map step_rank new) \<and> (\<forall>c \<in> set new. step_rank c \<le> 5)"
    using update_container_continues [of cm rt service_name config]
    unfolding continues_def by blast
  show "fst (stop_container rt service_name 30 cm) = Inr True
        \<and> fst (remove_container rt service_name False (after_stop rt service_name cm))
            = Inr True
        \<and> fst (pull_image rt (sc_image config) (after_remove rt service_name cm)) = Inr True
        \<and> fst (create_container rt service_name config
                  (before_create rt service_name config cm)) = Inr True
        \<and> fst (start_container rt service_name (after_create rt service_name config cm))
            = Inr True
      \<longrightarrow> ?u = (True, after_start rt service_name config cm)"
    by (simp add: update_container_unfold)
  show "fst (stop_container rt service_name 30 cm) = Inr True
        \<and> fst (remove_container rt service_name False (after_stop rt service_name cm))
            = Inr True
        \<and> fst (pull_image rt (sc_image config) (after_remove rt service_name cm)) = Inr True
        \<and> fst (create_container rt service_name config
                  (before_create rt service_name config cm)) \<noteq> Inr True
      \<longrightarrow> snd ?u = after_create rt service_name config cm
        \<and> map_of (containers (snd ?u)) service_name = None
        \<and> get_container_status rt service_name (snd ?u) = (Inr ''unknown'', snd ?u)"
  proof (intro impI)
    assume a: "fst (stop_container rt service_name 30 cm) = Inr True
        \<and> fst (remove_container rt service_name False (after_stop rt service_name cm))
            = Inr True
        \<and> fst (pull_image rt (sc_image config) (after_remove rt service_name cm)) = Inr True
        \<and> fst (create_container rt service_name config
                  (before_create rt service_name config cm)) \<noteq> Inr True"
    have 1: "snd ?u = after_create rt service_name config cm"
      using a by (intro update_create_fails(1)) simp_all
    have 2: "map_of (containers (after_create rt service_name config cm)) service_name = None"
      using a by (intro update_create_fails(2)) simp_all
    show "snd ?u = after_create rt service_name config cm
        \<and> map_of (containers (snd ?u)) service_name = None
        \<and> get_container_status rt service_name (snd ?u) = (Inr ''unknown'', snd ?u)"
      using 1 2 by (simp add: get_container_status_def)
  qed
  show "fst (stop_container rt service_name 30 cm) = Inr True
        \<and> fst (remove_container rt service_name False (after_stop rt service_name cm))
            = Inr True
        \<and> fst (pull_image rt (sc_image config) (after_remove rt service_name cm)) = Inr True
        \<and> fst (create_container rt service_name config
                  (before_create rt service_name config cm)) = Inr True
        \<and> fst (start_container rt service_name (after_create rt service_name config cm))
            \<noteq> Inr True
      \<longrightarrow> snd ?u = after_start rt service_name config cm
        \<and> (\<exists>container. map_of (containers (snd ?u)) service_name = Some container)"
  proof (intro impI)
    assume a: "fst (stop_container rt service_name 30 cm) = Inr True
        \<and> fst (remove_container rt service_name False (after_stop rt service_name cm))
            = Inr True
        \<and> fst (pull_image rt (sc_image config) (after_remove rt service_name cm)) = Inr True
        \<and> fst (create_container rt service_name config
                  (before_create rt service_name config cm)) = Inr True
        \<and> fst (start_container rt service_name (after_create rt service_name config cm))
            \<noteq> Inr True"
    have 1: "snd ?u = after_start rt service_name config cm"
      using a by (intro update_start_fails(1)) simp_all
    have 2: "\<exists>container. map_of (containers (after_start rt service_name config cm))
                           service_name = Some container"
      using a by (intro update_start_fails(2)) simp_all
    show "snd ?u = after_start rt service_name config cm
        \<and> (\<exists>container. map_of (containers (snd ?u)) service_name = Some container)"
      using 1 2 by simp
  qed
  show "\<forall>s. fst (get_container_status rt service_name (snd ?u)) = Inr s
        \<longrightarrow> s = ''unknown'' \<or> s = ''error'' \<or>
            (\<exists>c a. map_of (containers (snd ?u)) service_name = Some c
                 \<and> fst (rt_reload rt (c_id c) (world (snd ?u))) = Inr a
                 \<and> s = a_status a)"
    using status_read_through by blast
qed

lemmas step_states =
  after_stop_def after_remove_def before_create_def after_create_def after_start_def

lemma web_steps_create_refused:
  "fst (stop_container docker_sim ''web'' 30 (web_manager [CreateCall ''homie_web''])) = Inr True
   \<and> fst (remove_container docker_sim ''web'' False
            (after_stop docker_sim ''web'' (web_manager [CreateCall ''homie_web'']))) = Inr True
   \<and> fst (pull_image docker_sim (sc_image web_config)
            (after_remove docker_sim ''web'' (web_manager [CreateCall ''homie_web''])))
       = Inr True
   \<and> fst (create_container docker_sim ''web'' web_config
            (before_create docker_sim ''web'' web_config
               (web_manager [CreateCall ''homie_web''])))
       \<noteq> Inr True"
  by (simp add: step_states sim_eval)

lemma web_steps_start_refused:
  "fst (stop_container docker_sim ''web'' 30 (web_manager [StartCall ''id_homie_web'']))
     = Inr True
   \<and> fst (remove_container docker_sim ''web'' False
            (after_stop docker_sim ''web'' (web_manager [StartCall ''id_homie_web''])))
       = Inr True
   \<and> fst (pull_image docker_sim (sc_image web_config)
            (after_remove docker_sim ''web'' (web_manager [StartCall ''id_homie_web''])))
       = Inr True
   \<and> fst (create_container docker_sim ''web'' web_config
            (before_create docker_sim ''web'' web_config
               (web_manager [StartCall ''id_homie_web''])))
       = Inr True
   \<and> fst (start_container docker_sim ''web''
            (after_create docker_sim ''web'' web_config
               (web_manager [StartCall ''id_homie_web''])))
       \<noteq> Inr True"
  by (simp add: step_states sim_eval)

lemma web_steps_all:
  "fst (stop_container docker_sim ''web'' 30 (web_manager [])) = Inr True
   \<and> fst (remove_container docker_sim ''web'' False
            (after_stop docker_sim ''web'' (web_manager []))) = Inr True
   \<and> fst (pull_image docker_sim (sc_image web_config)
            (after_remove docker_sim ''web'' (web_manager []))) = Inr True
   \<and> fst (create_container docker_sim ''web'' web_config
            (before_create docker_sim ''web'' web_config (web_manager []))) = Inr True
   \<and> fst (start_container docker_sim ''web''
            (after_create docker_sim ''web'' web_config (web_manager []))) = Inr True"
  by (simp add: step_states sim_eval)

lemma web_update_trace:
  "calls (snd (update_container docker_sim ''web'' web_config (web_manager [])))
     = [StopCall ''c1'' 30, StopCall ''c1'' 30, RemoveCall ''c1'' False,
        PullCall ''nginx:2.0'', CreateCall ''homie_web'',
        ConnectCall ''homie_network'' ''id_homie_web'', StartCall ''id_homie_web'']"
  by (simp add: update_container_def sim_eval)

theorem update_container_sequence_witness:
  "fst (stop_container docker_sim ''web'' 30 (web_manager [])) = Inr True
   \<and> fst (start_container docker_sim ''web''
            (after_create docker_sim ''web'' web_config (web_manager []))) = Inr True
   \<and> update_container docker_sim ''web'' web_config (web_manager [])
       = (True, after_start docker_sim ''web'' web_config (web_manager []))
   \<and> calls (snd (update_container docker_sim ''web'' web_config (web_manager [])))
       = [StopCall ''c1'' 30, StopCall ''c1'' 30, RemoveCall ''c1'' False,
          PullCall ''nginx:2.0'', CreateCall ''homie_web'',
          ConnectCall ''homie_network'' ''id_homie_web'', StartCall ''id_homie_web'']
   \<and> fst (create_container docker_sim ''web'' web_config
            (before_create docker_sim ''web'' web_config
               (web_manager [CreateCall ''homie_web''])))
       \<noteq> Inr True
   \<and> map_of (containers (snd (update_container docker_sim ''web'' web_config
                                 (web_manager [CreateCall ''homie_web''])))) ''web'' = None
   \<and> get_container_status docker_sim ''web''
        (snd (update_container docker_sim ''web'' web_config
                (web_manager [CreateCall ''homie_web''])))
       = (Inr ''unknown'',
          snd (update_container docker_sim ''web'' web_config
                 (web_manager [CreateCall ''homie_web''])))
   \<and> fst (start_container docker_sim ''web''
            (after_create docker_sim ''web'' web_config
               (web_manager [StartCall ''id_homie_web''])))
       \<noteq> Inr True
   \<and> (\<exists>container.
         map_of (containers (snd (update_container docker_sim ''web'' web_config
                                    (web_manager [StartCall ''id_homie_web''])))) ''web''
           = Some container)"
proof -
  note a = update_container_sequence [of docker_sim "''web''" web_config "web_manager []"]
  note b = update_container_sequence
    [of docker_sim "''web''" web_config "web_manager [CreateCall ''homie_web'']"]
  note c = update_container_sequence
    [of docker_sim "''web''" web_config "web_manager [StartCall ''id_homie_web'']"]
  have 1: "update_container docker_sim ''web'' web_config (web_manager [])
       = (True, after_start docker_sim ''web'' web_config (web_manager []))"
    using a [THEN conjunct2, THEN conjunct1] web_steps_all by blast
  have 2: "map_of (containers (snd (update_container docker_sim ''web'' web_config
                                 (web_manager [CreateCall ''homie_web''])))) ''web'' = None
   \<and> get_container_status docker_sim ''web''
        (snd (update_container docker_sim ''web'' web_config
                (web_manager [CreateCall ''homie_web''])))
       = (Inr ''unknown'',
          snd (update_container docker_sim ''web'' web_config
                 (web_manager [CreateCall ''homie_web''])))"
    using b [THEN conjunct2, THEN conjunct2, THEN conjunct1] web_steps_create_refused
    by blast
  have 3: "\<exists>container.
         map_of (containers (snd (update_container docker_sim ''web'' web_config
                                    (web_manager [StartCall ''id_homie_web''])))) ''web''
           = Some container"
    using c [THEN conjunct2, THEN conjunct2, THEN conjunct2, THEN conjunct1]
      web_steps_start_refused
    by blast
  from web_steps_all 1 web_update_trace web_steps_create_refused 2 web_steps_start_refused 3
  show ?thesis by (intro conjI) blast+
qed

text \<open>
  C4 as stated fails.  With the start refused after the removal, the created instance
  stays registered and the status read afterwards is \<open>created\<close>.  With the pull refused
  after a successful removal, the update still creates and starts: an instance is
  registered and the status read afterwards is \<open>running\<close>.
\<close>

theorem update_leaves_instance_counterexample:
  "fst (remove_container docker_sim ''web'' False
          (after_stop docker_sim ''web'' (web_manager [StartCall ''id_homie_web''])))
     = Inr True
   \<and> fst (start_container docker_sim ''web''
            (after_create docker_sim ''web'' web_config
               (web_manager [StartCall ''id_homie_web''])))
       = Inr False
   \<and> map_of (containers (snd (update_container docker_sim ''web'' web_config
                                 (web_manager [StartCall ''id_homie_web''])))) ''web''
       = Some \<lparr>c_id = ''id_homie_web'',
                c_attrs = \<lparr>a_name = ''homie_web'', a_status = ''created'',
                            a_image_tags = [''nginx:2.0''], a_image_id = ''sha256:nginx:2.0'',
                            a_created = ''2024-01-01T00:00:00Z''\<rparr>\<rparr>
   \<and> fst (get_container_status docker_sim ''web''
            (snd (update_container docker_sim ''web'' web_config
                    (web_manager [StartCall ''id_homie_web''])))) = Inr ''created''
   \<and> fst (remove_container docker_sim ''web'' False
            (after_stop docker_sim ''web'' (web_manager [PullCall ''nginx:2.0''])))
       = Inr True
   \<and> fst (pull_image docker_sim ''nginx:2.0''
            (after_remove docker_sim ''web'' (web_manager [PullCall ''nginx:2.0''])))
       = Inr False
   \<and> fst (get_container_status docker_sim ''web''
            (snd (update_container docker_sim ''web'' web_config
                    (web_manager [PullCall ''nginx:2.0''])))) = Inr ''running''"
  by (simp add: update_container_def step_states sim_eval)

subsection \<open>Firing a task\<close>

lemma fire_keys: "map fst (tasks (fire now engine_next tid sch)) = map fst (tasks sch)"
  by (simp add: fire_def split: option.splits)

text \<open>
  C7, as amended.  A firing sets \<open>last_run\<close> to the current time before the action is
  invoked (the action is run on the task with \<open>last_run\<close> already set), whatever the
  action then does.  \<open>next_run\<close> is refreshed from the engine's next-fire time when the
  action returns and the task has a job; when the action raises, \<open>next_run\<close> keeps its
  value.  Either way the task keeps its id, stays enabled as it was and keeps its job, the
  task dictionary keeps its keys and the engine is untouched.
\<close>

theorem task_wrapper_bookkeeping:
  "last_run (task_wrapper now engine_next task) = Some now
   \<and> (task_func task (Some now, next_run task) = None
        \<longrightarrow> next_run (task_wrapper now engine_next task)
              = (if task_job task = None then next_run task else engine_next))
   \<and> (\<forall>e. task_func task (Some now, next_run task) = Some e
        \<longrightarrow> next_run (task_wrapper now engine_next task) = next_run task)
   \<and> task_id (task_wrapper now engine_next task) = task_id task
   \<and> task_enabled (task_wrapper now engine_next task) = task_enabled task
   \<and> task_job (task_wrapper now engine_next task) = task_job task
   \<and> map fst (tasks (fire now engine_next tid sch)) = map fst (tasks sch)
   \<and> engine (fire now engine_next tid sch) = engine sch"
proof -
  have f: "engine (fire now engine_next tid sch) = engine sch"
    by (simp add: fire_def split: option.splits)
  show ?thesis
    using fire_keys [of now engine_next tid sch] f
    by (simp add: task_wrapper_def Let_def split: option.splits)
qed

theorem task_wrapper_bookkeeping_witness:
  "task_func observing_task (Some 150, next_run observing_task) = None
   \<and> last_run (task_wrapper 150 (Some 200) observing_task) = Some 150
   \<and> next_run (task_wrapper 150 (Some 200) observing_task) = Some 200
   \<and> task_func failing_task (Some 150, next_run failing_task) = Some (OtherException ''boom'')
   \<and> last_run (task_wrapper 150 (Some 200) failing_task) = Some 150
   \<and> next_run (task_wrapper 150 (Some 200) failing_task) = Some 100"
proof -
  have o: "task_func observing_task (Some 150, next_run observing_task) = None"
    by (simp add: observing_task_def)
  have j: "task_job observing_task \<noteq> None" by (simp add: observing_task_def)
  have f: "task_func failing_task (Some 150, next_run failing_task)
             = Some (OtherException ''boom'')"
    by (simp add: failing_task_def)
  have n: "next_run failing_task = Some 100" by (simp add: failing_task_def)
  from task_wrapper_bookkeeping [of 150 "Some 200" observing_task "''t2''" empty_scheduler] o j
  have 1: "last_run (task_wrapper 150 (Some 200) observing_task) = Some 150"
    and 2: "next_run (task_wrapper 150 (Some 200) observing_task) = Some 200"
    by simp_all
  from task_wrapper_bookkeeping [of 150 "Some 200" failing_task "''t1''" empty_scheduler] f n
  have 3: "last_run (task_wrapper 150 (Some 200) failing_task) = Some 150"
    and 4: "next_run (task_wrapper 150 (Some 200) failing_task) = Some 100"
    by simp_all
  from o 1 2 f 3 4 show ?thesis by (intro conjI)
qed

text \<open>
  C7 as stated fails: the action raises, the engine's next-fire time is 200, and
  \<open>next_run\<close> still shows 100.
\<close>

theorem failed_action_keeps_next_run_counterexample:
  "task_job failing_task = Some ''t1''
   \<and> task_func failing_task (Some 150, Some 100) = Some (OtherException ''boom'')
   \<and> next_run failing_task = Some 100
   \<and> next_run (task_wrapper 150 (Some 200) failing_task) = Some 100"
  by (simp add: task_wrapper_def failing_task_def)

subsection \<open>Schedule strings\<close>

lemma utf8_points_ascii: "\<forall>b \<in> set bs. b < 128 \<Longrightarrow> utf8_points bs = Some bs"
  by (induction bs) simp_all

lemma those_to_ascii: "\<forall>c \<in> set cs. c < 127 \<Longrightarrow> those (map to_ascii cs) = Some cs"
  by (induction cs) (simp_all add: to_ascii_def)

lemma digit_not_space: "is_digit c \<Longrightarrow> \<not> is_space c"
  by (auto simp: is_digit_def is_space_def)

lemma dropWhile_digits:
  "ds \<noteq> [] \<Longrightarrow> is_digit (hd ds) \<Longrightarrow> dropWhile is_space ds = ds"
  by (cases ds) (simp_all add: digit_not_space)

lemma strip_digits:
  assumes "ds \<noteq> []" "\<forall>c \<in> set ds. is_digit c"
  shows "strip ds = ds"
proof -
  have 1: "dropWhile is_space ds = ds"
    using assms by (intro dropWhile_digits) (auto simp: hd_in_set)
  have "rev ds \<noteq> []" "is_digit (hd (rev ds))"
    using assms by (auto simp: hd_rev)
  then have 2: "dropWhile is_space (rev ds) = rev ds" by (rule dropWhile_digits)
  show ?thesis by (simp add: strip_def 1 2)
qed

lemma well_grouped_digits:
  "ds \<noteq> [] \<Longrightarrow> \<forall>c \<in> set ds. is_digit c \<Longrightarrow> well_grouped ds"
proof (induction ds rule: well_grouped.induct)
  case 1
  then show ?case by simp
next
  case (2 c)
  then show ?case by simp
next
  case (3 c d cs)
  have "d \<noteq> 95" using 3(4) by (auto simp: is_digit_def)
  then show ?case using 3 by simp
qed

lemma digit_chars: "is_digit c \<Longrightarrow> c \<noteq> 95 \<and> c \<noteq> 45 \<and> c \<noteq> 43 \<and> c < 127"
  by (auto simp: is_digit_def)

lemma filter_digits: "\<forall>c \<in> set ds. is_digit c \<Longrightarrow> filter (\<lambda>c. c \<noteq> 95) ds = ds"
  by (induction ds) (auto simp: digit_chars)

lemma sign_of_digits:
  "b \<noteq> [] \<Longrightarrow> is_digit (hd b) \<Longrightarrow>
   (case b of
      c # r \<Rightarrow> if c = 45 then (True, r)
               else if c = 43 then (False, r)
               else (False, b)
    | [] \<Rightarrow> (False, b)) = (False, b)"
  by (cases b) (auto dest: digit_chars)

lemma py_int_digits:
  assumes "ds \<noteq> []" "\<forall>c \<in> set ds. is_digit (of_char c)" "length ds \<le> int_max_str_digits"
  shows "py_int ds = Inr (decimal (map of_char ds))"
proof -
  define ns :: "nat list" where "ns = map of_char ds"
  have ne: "ns \<noteq> []" and dg: "\<forall>c \<in> set ns. is_digit c" and len: "length ns = length ds"
    using assms(1,2) by (simp_all add: ns_def)
  have u: "utf8_points ns = Some ns"
    using dg by (intro utf8_points_ascii) (auto simp: is_digit_def)
  have t: "those (map to_ascii ns) = Some ns"
    using dg by (intro those_to_ascii) (auto simp: is_digit_def)
  have s: "strip ns = ns" using ne dg by (rule strip_digits)
  have h: "is_digit (hd ns)" using ne dg by simp
  have wg: "well_grouped ns" using ne dg by (rule well_grouped_digits)
  have fl: "filter (\<lambda>c. c \<noteq> 95) ns = ns" using dg by (rule filter_digits)
  have "py_int ds = Inr (decimal ns)"
    unfolding py_int_def ns_def [symmetric] u t option.case Let_def s
      sign_of_digits [OF ne h]
    using wg fl assms(3) len by simp
  then show ?thesis by (simp add: ns_def)
qed

lemma endswith_snoc: "endswith (ds @ [u]) cs \<longleftrightarrow> u \<in> set cs"
  by (simp add: endswith_def)

lemma parse_interval_snoc:
  assumes "u \<in> set ''smhd''"
  shows "parse_interval (body @ [u]) = map_sum id (\<lambda>n. n * unit_seconds u) (py_int body)"
proof -
  consider "u = CHR ''s''" | "u = CHR ''m''" | "u = CHR ''h''" | "u = CHR ''d''"
    using assms by auto
  then show ?thesis
  proof cases
    case 1
    then show ?thesis
      by (cases "py_int body") (simp_all add: parse_interval_def endswith_snoc unit_seconds_def)
  next
    case 2
    then show ?thesis
      by (simp add: parse_interval_def endswith_snoc unit_seconds_def)
  next
    case 3
    then show ?thesis
      by (simp add: parse_interval_def endswith_snoc unit_seconds_def)
  next
    case 4
    then show ?thesis
      by (simp add: parse_interval_def endswith_snoc unit_seconds_def)
  qed
qed

lemma is_interval_snoc:
  "is_interval_schedule schedule \<longleftrightarrow> (\<exists>body u. schedule = body @ [u] \<and> u \<in> set ''smhd'')"
proof
  assume "is_interval_schedule schedule"
  then have "schedule \<noteq> []" "last schedule \<in> set ''smhd''"
    by (simp_all add: is_interval_schedule_def endswith_def)
  then have "schedule = butlast schedule @ [last schedule] \<and> last schedule \<in> set ''smhd''"
    by simp
  then show "\<exists>body u. schedule = body @ [u] \<and> u \<in> set ''smhd''" by blast
next
  assume "\<exists>body u. schedule = body @ [u] \<and> u \<in> set ''smhd''"
  then show "is_interval_schedule schedule"
    by (auto simp: is_interval_schedule_def endswith_def)
qed

lemma not_cron:
  "croniter api schedule = Some (ValueError msg) \<Longrightarrow> is_cron_schedule api schedule = Inr False"
  by (simp add: is_cron_schedule_def)

lemma is_cron: "croniter api schedule = None \<Longrightarrow> is_cron_schedule api schedule = Inr True"
  by (simp add: is_cron_schedule_def)

lemma cron_raises:
  "croniter api schedule = Some e \<Longrightarrow> \<forall>msg. e \<noteq> ValueError msg
   \<Longrightarrow> is_cron_schedule api schedule = Inl e"
  by (cases e) (simp_all add: is_cron_schedule_def)

text \<open>The trigger that \<open>add_task\<close> builds for an enabled task, as the statements name it.\<close>

lemma trigger_interval:
  assumes "croniter api schedule = Some (ValueError msg)"
    and "schedule = body @ [u]" and "u \<in> set ''smhd''" and "py_int body = Inr n"
  shows "is_cron_schedule api schedule = Inr False \<and> is_interval_schedule schedule
         \<and> parse_interval schedule = Inr (n * unit_seconds u)"
proof (intro conjI)
  show "is_cron_schedule api schedule = Inr False" using assms(1) by (rule not_cron)
  show "is_interval_schedule schedule" unfolding is_interval_snoc using assms(2,3) by blast
  show "parse_interval schedule = Inr (n * unit_seconds u)"
    unfolding assms(2) parse_interval_snoc [OF assms(3)] assms(4) by simp
qed

lemma add_task_with_trigger:
  assumes "(croniter api schedule = None \<and> from_crontab api schedule = Inr trig)
           \<or> (\<exists>msg body u n. croniter api schedule = Some (ValueError msg)
                 \<and> schedule = body @ [u] \<and> u \<in> set ''smhd'' \<and> py_int body = Inr n
                 \<and> interval_trigger api (n * unit_seconds u) = Inr trig)"
  shows "add_task api tid name func schedule True sch =
           (case add_job api trig tid name (engine sch) of
              (Inl e, eng) \<Rightarrow> (False, sch\<lparr>engine := eng\<rparr>)
            | (Inr job, eng) \<Rightarrow>
               (case job_next_run_time job of
                  Unset \<Rightarrow>
                    (False,
                     sch\<lparr>engine := eng,
                         objects := objects sch
                           @ [(new_task tid name func schedule True)
                                \<lparr>task_job := Some (job_id job)\<rparr>],
                         bound := AList.update tid (length (objects sch)) (bound sch)\<rparr>)
                | Slot next_time \<Rightarrow>
                    (True,
                     sch\<lparr>engine := eng,
                         objects := objects sch
                           @ [(new_task tid name func schedule True)
                                \<lparr>task_job := Some (job_id job), next_run := next_time\<rparr>],
                         tasks := AList.update tid (length (objects sch)) (tasks sch),
                         bound := AList.update tid (length (objects sch)) (bound sch)\<rparr>)))"
  using assms
proof (elim disjE exE conjE)
  assume "croniter api schedule = None" "from_crontab api schedule = Inr trig"
  then show ?thesis by (simp add: add_task_def is_cron Let_def)
next
  fix msg body u n
  assume a: "croniter api schedule = Some (ValueError msg)" "schedule = body @ [u]"
    "u \<in> set ''smhd''" "py_int body = Inr n"
    and t: "interval_trigger api (n * unit_seconds u) = Inr trig"
  note ti = trigger_interval [OF a]
  show ?thesis
    unfolding add_task_def Let_def
    by (simp add: ti t)
qed

lemma add_task_rejected:
  assumes "croniter api schedule = Some (ValueError msg)"
    and "\<not> (\<exists>body u n. schedule = body @ [u] \<and> u \<in> set ''smhd'' \<and> py_int body = Inr n)"
  shows "add_task api tid name func schedule True sch = (False, sch)"
proof (cases "is_interval_schedule schedule")
  case False
  then show ?thesis using assms(1) by (simp add: add_task_def not_cron Let_def)
next
  case True
  then obtain body u where s: "schedule = body @ [u]" "u \<in> set ''smhd''"
    unfolding is_interval_snoc by blast
  then have "\<forall>n. py_int body \<noteq> Inr n" using assms(2) by blast
  then obtain e where "py_int body = Inl e" by (cases "py_int body") auto
  then have "parse_interval schedule = Inl e"
    using s by (simp add: parse_interval_snoc)
  then show ?thesis using assms(1) True by (simp add: add_task_def not_cron Let_def)
qed

lemma add_task_no_trigger:
  assumes "(\<exists>e. croniter api schedule = None \<and> from_crontab api schedule = Inl e)
           \<or> (\<exists>e. croniter api schedule = Some e \<and> (\<forall>msg. e \<noteq> ValueError msg))
           \<or> (\<exists>msg body u n e. croniter api schedule = Some (ValueError msg)
                 \<and> schedule = body @ [u] \<and> u \<in> set ''smhd'' \<and> py_int body = Inr n
                 \<and> interval_trigger api (n * unit_seconds u) = Inl e)"
  shows "add_task api tid name func schedule True sch = (False, sch)"
  using assms
proof (elim disjE exE conjE)
  fix e
  assume "croniter api schedule = None" "from_crontab api schedule = Inl e"
  then show ?thesis by (simp add: add_task_def is_cron Let_def)
next
  fix e
  assume "croniter api schedule = Some e" "\<forall>msg. e \<noteq> ValueError msg"
  then have "is_cron_schedule api schedule = Inl e" by (rule cron_raises)
  then show ?thesis by (simp add: add_task_def Let_def)
next
  fix msg body u n e
  assume a: "croniter api schedule = Some (ValueError msg)" "schedule = body @ [u]"
    "u \<in> set ''smhd''" "py_int body = Inr n"
    and t: "interval_trigger api (n * unit_seconds u) = Inl e"
  note ti = trigger_interval [OF a]
  show ?thesis
    unfolding add_task_def Let_def
    by (simp add: ti t)
qed

lemmas int_eval =
  parse_interval_def endswith_def py_int_def to_ascii_def strip_def is_space_def is_digit_def
  decimal_def digit_value_def int_max_str_digits_def Let_def

lemma parse_interval_examples:
  "parse_interval ''30s'' = Inr 30 \<and> parse_interval ''5m'' = Inr 300
   \<and> parse_interval ''2h'' = Inr 7200 \<and> parse_interval ''1d'' = Inr 86400"
  by (simp add: int_eval)

text \<open>
  C6, as amended.  For a task added enabled:
  if the cron parser accepts the schedule, the trigger is the cron trigger built from it;
  if the parser rejects it (\<open>ValueError\<close>) and it is an integer, as \<open>int\<close> reads one,
  followed by one of \<open>s\<close>, \<open>m\<close>, \<open>h\<close>, \<open>d\<close>, the trigger is the interval of that
  integer times 1, 60, 3600, 86400 seconds; a string of ASCII digits (at most 4300 of
  them) is read as its decimal value, so \<open>30s\<close> is 30, \<open>5m\<close> is 300, \<open>2h\<close> is 7200 and
  \<open>1d\<close> is 86400.
  With the trigger built, the task is registered and \<open>True\<close> returned when the engine
  accepts the job and the job carries its next run time; when the engine refuses the job,
  \<open>False\<close> is returned and the task is not registered.
  In every other case no trigger is built, \<open>add_task\<close> returns \<open>False\<close> and nothing
  changes: the parser accepts the string but it is no valid five-field expression for the
  cron trigger, the parser fails otherwise than by \<open>ValueError\<close>, the interval trigger
  refuses the number, or the string is rejected by the parser and is not an integer
  followed by a unit, such as \<open>5x\<close>.
  For a task added disabled the schedule is not looked at: the task is registered without
  a job and \<open>True\<close> is returned.
\<close>

theorem add_task_schedule_forms:
  "(\<forall>trig.
       (croniter api schedule = None \<and> from_crontab api schedule = Inr trig)
       \<or> (\<exists>msg body u n. croniter api schedule = Some (ValueError msg)
              \<and> schedule = body @ [u] \<and> u \<in> set ''smhd'' \<and> py_int body = Inr n
              \<and> interval_trigger api (n * unit_seconds u) = Inr trig)
       \<longrightarrow> (\<forall>job eng next_time.
               add_job api trig tid name (engine sch) = (Inr job, eng)
               \<and> job_next_run_time job = Slot next_time
               \<longrightarrow> add_task api tid name func schedule True sch =
                     (True,
                      sch\<lparr>engine := eng,
                          objects := objects sch
                            @ [\<lparr>task_id = tid, task_name = name, task_func = func,
                                task_schedule = schedule, task_enabled = True,
                                last_run = None, next_run = next_time,
                                task_job = Some (job_id job)\<rparr>],
                          tasks := AList.update tid (length (objects sch)) (tasks sch),
                          bound := AList.update tid (length (objects sch)) (bound sch)\<rparr>))
           \<and> (\<forall>e eng.
               add_job api trig tid name (engine sch) = (Inl e, eng)
               \<longrightarrow> add_task api tid name func schedule True sch = (False, sch\<lparr>engine := eng\<rparr>)))
   \<and> (\<forall>body u n. schedule = body @ [u] \<and> u \<in> set ''smhd'' \<and> py_int body = Inr n
        \<longrightarrow> parse_interval schedule = Inr (n * unit_seconds u))
   \<and> (\<forall>ds. ds \<noteq> [] \<and> (\<forall>c \<in> set ds. is_digit (of_char c)) \<and> length ds \<le> int_max_str_digits
        \<longrightarrow> py_int ds = Inr (decimal (map of_char ds)))
   \<and> parse_interval ''30s'' = Inr 30 \<and> parse_interval ''5m'' = Inr 300
   \<and> parse_interval ''2h'' = Inr 7200 \<and> parse_interval ''1d'' = Inr 86400
   \<and> ((\<exists>e. croniter api schedule = None \<and> from_crontab api schedule = Inl e)
       \<or> (\<exists>e. croniter api schedule = Some e \<and> (\<forall>msg. e \<noteq> ValueError msg))
       \<or> (\<exists>msg body u n e. croniter api schedule = Some (ValueError msg)
              \<and> schedule = body @ [u] \<and> u \<in> set ''smhd'' \<and> py_int body = Inr n
              \<and> interval_trigger api (n * unit_seconds u) = Inl e)
       \<or> (\<exists>msg. croniter api schedule = Some (ValueError msg)
              \<and> \<not> (\<exists>body u n. schedule = body @ [u] \<and> u \<in> set ''smhd''
                       \<and> py_int body = Inr n))
       \<longrightarrow> add_task api tid name func schedule True sch = (False, sch))
   \<and> (\<forall>msg. croniter api ''5x'' = Some (ValueError msg)
        \<longrightarrow> add_task api tid name func ''5x'' True sch = (False, sch))
   \<and> add_task api tid name func schedule False sch =
       (True,
        sch\<lparr>objects := objects sch
              @ [\<lparr>task_id = tid, task_name = name, task_func = func,
                  task_schedule = schedule, task_enabled = False,
                  last_run = None, next_run = None, task_job = None\<rparr>],
            tasks := AList.update tid (length (objects sch)) (tasks sch)\<rparr>)"
proof -
  have 1: "\<forall>trig.
       (croniter api schedule = None \<and> from_crontab api schedule = Inr trig)
       \<or> (\<exists>msg body u n. croniter api schedule = Some (ValueError msg)
              \<and> schedule = body @ [u] \<and> u \<in> set ''smhd'' \<and> py_int body = Inr n
              \<and> interval_trigger api (n * unit_seconds u) = Inr trig)
       \<longrightarrow> (\<forall>job eng next_time.
               add_job api trig tid name (engine sch) = (Inr job, eng)
               \<and> job_next_run_time job = Slot next_time
               \<longrightarrow> add_task api tid name func schedule True sch =
                     (True,
                      sch\<lparr>engine := eng,
                          objects := objects sch
                            @ [\<lparr>task_id = tid, task_name = name, task_func = func,
                                task_schedule = schedule, task_enabled = True,
                                last_run = None, next_run = next_time,
                                task_job = Some (job_id job)\<rparr>],
                          tasks := AList.update tid (length (objects sch)) (tasks sch),
                          bound := AList.update tid (length (objects sch)) (bound sch)\<rparr>))
           \<and> (\<forall>e eng.
               add_job api trig tid name (engine sch) = (Inl e, eng)
               \<longrightarrow> add_task api tid name func schedule True sch = (False, sch\<lparr>engine := eng\<rparr>))"
  proof (intro allI impI conjI)
    fix trig job eng next_time
    assume t: "(croniter api schedule = None \<and> from_crontab api schedule = Inr trig)
       \<or> (\<exists>msg body u n. croniter api schedule = Some (ValueError msg)
              \<and> schedule = body @ [u] \<and> u \<in> set ''smhd'' \<and> py_int body = Inr n
              \<and> interval_trigger api (n * unit_seconds u) = Inr trig)"
      and j: "add_job api trig tid name (engine sch) = (Inr job, eng)
               \<and> job_next_run_time job = Slot next_time"
    show "add_task api tid name func schedule True sch =
                     (True,
                      sch\<lparr>engine := eng,
                          objects := objects sch
                            @ [\<lparr>task_id = tid, task_name = name, task_func = func,
                                task_schedule = schedule, task_enabled = True,
                                last_run = None, next_run = next_time,
                                task_job = Some (job_id job)\<rparr>],
                          tasks := AList.update tid (length (objects sch)) (tasks sch),
                          bound := AList.update tid (length (objects sch)) (bound sch)\<rparr>)"
      unfolding add_task_with_trigger [OF t] using j by (simp add: new_task_def)
  next
    fix trig e eng
    assume t: "(croniter api schedule = None \<and> from_crontab api schedule = Inr trig)
       \<or> (\<exists>msg body u n. croniter api schedule = Some (ValueError msg)
              \<and> schedule = body @ [u] \<and> u \<in> set ''smhd'' \<and> py_int body = Inr n
              \<and> interval_trigger api (n * unit_seconds u) = Inr trig)"
      and j: "add_job api trig tid name (engine sch) = (Inl e, eng)"
    show "add_task api tid name func schedule True sch = (False, sch\<lparr>engine := eng\<rparr>)"
      unfolding add_task_with_trigger [OF t] using j by simp
  qed
  have 2: "\<forall>body u n. schedule = body @ [u] \<and> u \<in> set ''smhd'' \<and> py_int body = Inr n
        \<longrightarrow> parse_interval schedule = Inr (n * unit_seconds u)"
    by (simp add: parse_interval_snoc)
  have 3: "\<forall>ds. ds \<noteq> [] \<and> (\<forall>c \<in> set ds. is_digit (of_char c))
             \<and> length ds \<le> int_max_str_digits
        \<longrightarrow> py_int ds = Inr (decimal (map of_char ds))"
    by (simp add: py_int_digits)
  note 4 = parse_interval_examples
  have 5: "(\<exists>e. croniter api schedule = None \<and> from_crontab api schedule = Inl e)
       \<or> (\<exists>e. croniter api schedule = Some e \<and> (\<forall>msg. e \<noteq> ValueError msg))
       \<or> (\<exists>msg body u n e. croniter api schedule = Some (ValueError msg)
              \<and> schedule = body @ [u] \<and> u \<in> set ''smhd'' \<and> py_int body = Inr n
              \<and> interval_trigger api (n * unit_seconds u) = Inl e)
       \<or> (\<exists>msg. croniter api schedule = Some (ValueError msg)
              \<and> \<not> (\<exists>body u n. schedule = body @ [u] \<and> u \<in> set ''smhd''
                       \<and> py_int body = Inr n))
       \<longrightarrow> add_task api tid name func schedule True sch = (False, sch)"
  proof
    assume "(\<exists>e. croniter api schedule = None \<and> from_crontab api schedule = Inl e)
       \<or> (\<exists>e. croniter api schedule = Some e \<and> (\<forall>msg. e \<noteq> ValueError msg))
       \<or> (\<exists>msg body u n e. croniter api schedule = Some (ValueError msg)
              \<and> schedule = body @ [u] \<and> u \<in> set ''smhd'' \<and> py_int body = Inr n
              \<and> interval_trigger api (n * unit_seconds u) = Inl e)
       \<or> (\<exists>msg. croniter api schedule = Some (ValueError msg)
              \<and> \<not> (\<exists>body u n. schedule = body @ [u] \<and> u \<in> set ''smhd''
                       \<and> py_int body = Inr n))"
    then consider
      (a) "(\<exists>e. croniter api schedule = None \<and> from_crontab api schedule = Inl e)
       \<or> (\<exists>e. croniter api schedule = Some e \<and> (\<forall>msg. e \<noteq> ValueError msg))
       \<or> (\<exists>msg body u n e. croniter api schedule = Some (ValueError msg)
              \<and> schedule = body @ [u] \<and> u \<in> set ''smhd'' \<and> py_int body = Inr n
              \<and> interval_trigger api (n * unit_seconds u) = Inl e)"
      | (b) msg where "croniter api schedule = Some (ValueError msg)"
          "\<not> (\<exists>body u n. schedule = body @ [u] \<and> u \<in> set ''smhd''
                       \<and> py_int body = Inr n)"
      by blast
    then show "add_task api tid name func schedule True sch = (False, sch)"
    proof cases
      case a
      then show ?thesis by (rule add_task_no_trigger)
    next
      case b
      then show ?thesis by (rule add_task_rejected)
    qed
  qed
  have 6: "\<forall>msg. croniter api ''5x'' = Some (ValueError msg)
        \<longrightarrow> add_task api tid name func ''5x'' True sch = (False, sch)"
    by (simp add: add_task_def not_cron is_interval_schedule_def endswith_def Let_def)
  have 7: "add_task api tid name func schedule False sch =
       (True,
        sch\<lparr>objects := objects sch
              @ [\<lparr>task_id = tid, task_name = name, task_func = func,
                  task_schedule = schedule, task_enabled = False,
                  last_run = None, next_run = None, task_job = None\<rparr>],
            tasks := AList.update tid (length (objects sch)) (tasks sch)\<rparr>)"
    by (simp add: add_task_def new_task_def Let_def)
  note p1 = 4 [THEN conjunct1]
  note p2 = 4 [THEN conjunct2, THEN conjunct1]
  note p3 = 4 [THEN conjunct2, THEN conjunct2, THEN conjunct1]
  note p4 = 4 [THEN conjunct2, THEN conjunct2, THEN conjunct2]
  from 1 2 3 p1 p2 p3 p4 5 6 7 show ?thesis by (intro conjI)
qed

lemma not_cron_5m:
  "croniter test_engine ''5m'' = Some (ValueError ''Exactly 5 or 6 columns has to be specified'')"
  by (simp add: test_engine_def field_count_def)

lemma not_cron_5x:
  "croniter test_engine ''5x'' = Some (ValueError ''Exactly 5 or 6 columns has to be specified'')"
  by (simp add: test_engine_def field_count_def)

lemma six_fields:
  "croniter test_engine ''0 0 * * * *'' = None
   \<and> from_crontab test_engine ''0 0 * * * *'' = Inl (ValueError ''Wrong number of fields'')"
  by (simp add: test_engine_def field_count_def)

lemma five_digit: "py_int ''5'' = Inr 5"
  by (simp add: int_eval)

lemma five_minutes_trigger:
  "croniter test_engine ''5m'' = Some (ValueError ''Exactly 5 or 6 columns has to be specified'')
   \<and> ''5m'' = ''5'' @ [CHR ''m''] \<and> CHR ''m'' \<in> set ''smhd'' \<and> py_int ''5'' = Inr 5
   \<and> interval_trigger test_engine (5 * unit_seconds CHR ''m'') = Inr (IntervalTrigger 300)"
  by (simp add: not_cron_5m five_digit) (simp add: test_engine_def unit_seconds_def)

text \<open>
  On the engine before its start the job comes back without a next run time: \<open>add_task\<close>
  returns \<open>False\<close> and the task dictionary stays empty, while the engine keeps the job.
\<close>

lemma add_task_before_start:
  "add_task pending_engine ''t1'' ''T'' (\<lambda>_. None) ''5m'' True empty_scheduler =
     (False,
      \<lparr>engine = [],
       objects = [\<lparr>task_id = ''t1'', task_name = ''T'', task_func = (\<lambda>_. None),
                   task_schedule = ''5m'', task_enabled = True, last_run = None,
                   next_run = None, task_job = Some ''t1''\<rparr>],
       tasks = [], bound = [(''t1'', 0)]\<rparr>)"
proof -
  have t: "(croniter pending_engine ''5m'' = None
              \<and> from_crontab pending_engine ''5m'' = Inr (IntervalTrigger 300))
           \<or> (\<exists>msg body u n. croniter pending_engine ''5m'' = Some (ValueError msg)
                  \<and> ''5m'' = body @ [u] \<and> u \<in> set ''smhd'' \<and> py_int body = Inr n
                  \<and> interval_trigger pending_engine (n * unit_seconds u)
                      = Inr (IntervalTrigger 300))"
    using five_minutes_trigger by (simp add: pending_engine_def)
  show ?thesis
    unfolding add_task_with_trigger [OF t]
    by (simp add: pending_engine_def new_task_def empty_scheduler_def)
qed

theorem add_task_schedule_forms_witness:
  "croniter test_engine ''5m'' = Some (ValueError ''Exactly 5 or 6 columns has to be specified'')
   \<and> py_int ''5'' = Inr 5
   \<and> parse_interval ''5m'' = Inr 300
   \<and> add_task test_engine ''t1'' ''T'' (\<lambda>_. None) ''5m'' True empty_scheduler
       = (True, one_task_scheduler)
   \<and> add_task test_engine ''t1'' ''T'' (\<lambda>_. None) ''5m'' True one_task_scheduler
       = (False, one_task_scheduler)
   \<and> croniter test_engine ''0 0 * * * *'' = None
   \<and> from_crontab test_engine ''0 0 * * * *'' = Inl (ValueError ''Wrong number of fields'')
   \<and> add_task test_engine ''t1'' ''T'' (\<lambda>_. None) ''0 0 * * * *'' True empty_scheduler
       = (False, empty_scheduler)
   \<and> croniter test_engine ''5x'' = Some (ValueError ''Exactly 5 or 6 columns has to be specified'')
   \<and> add_task test_engine ''t1'' ''T'' (\<lambda>_. None) ''5x'' True empty_scheduler
       = (False, empty_scheduler)
   \<and> add_task test_engine ''t1'' ''T'' (\<lambda>_. None) ''5x'' False empty_scheduler
       = (True,
          \<lparr>engine = [],
           objects = [\<lparr>task_id = ''t1'', task_name = ''T'', task_func = (\<lambda>_. None),
                       task_schedule = ''5x'', task_enabled = False, last_run = None,
                       next_run = None, task_job = None\<rparr>],
           tasks = [(''t1'', 0)], bound = []\<rparr>)"
proof -
  have t: "(croniter test_engine ''5m'' = None
              \<and> from_crontab test_engine ''5m'' = Inr (IntervalTrigger 300))
           \<or> (\<exists>msg body u n. croniter test_engine ''5m'' = Some (ValueError msg)
                  \<and> ''5m'' = body @ [u] \<and> u \<in> set ''smhd'' \<and> py_int body = Inr n
                  \<and> interval_trigger test_engine (n * unit_seconds u)
                      = Inr (IntervalTrigger 300))"
    using five_minutes_trigger by blast
  have d: "''5'' \<noteq> [] \<and> (\<forall>c \<in> set ''5''. is_digit (of_char c))
             \<and> length ''5'' \<le> int_max_str_digits"
    by (simp add: is_digit_def int_max_str_digits_def)
  have v: "decimal (map of_char ''5'') = 5"
    by (simp add: decimal_def digit_value_def)
  have j0: "add_job test_engine (IntervalTrigger 300) ''t1'' ''T'' (engine empty_scheduler)
              = (Inr \<lparr>job_id = ''t1'', job_name = ''T'', job_trigger = IntervalTrigger 300,
                      job_next_run_time = Slot (Some 0)\<rparr>, [''t1''])
            \<and> job_next_run_time \<lparr>job_id = ''t1'', job_name = ''T'',
                  job_trigger = IntervalTrigger 300, job_next_run_time = Slot (Some 0)\<rparr>
                = Slot (Some 0)"
    by (simp add: test_engine_def empty_scheduler_def)
  have j1: "add_job test_engine (IntervalTrigger 300) ''t1'' ''T'' (engine one_task_scheduler)
              = (Inl (OtherException ''ConflictingIdError''), [''t1''])"
    by (simp add: test_engine_def one_task_scheduler_def)
  note on_empty = add_task_schedule_forms
    [where api = test_engine and schedule = "''5m''" and tid = "''t1''" and name = "''T''"
       and func = "\<lambda>_. None" and sch = empty_scheduler]
  note on_one = add_task_schedule_forms
    [where api = test_engine and schedule = "''5m''" and tid = "''t1''" and name = "''T''"
       and func = "\<lambda>_. None" and sch = one_task_scheduler]
  note on_six = add_task_schedule_forms
    [where api = test_engine and schedule = "''0 0 * * * *''" and tid = "''t1''"
       and name = "''T''" and func = "\<lambda>_. None" and sch = empty_scheduler]
  note on_5x = add_task_schedule_forms
    [where api = test_engine and schedule = "''5x''" and tid = "''t1''" and name = "''T''"
       and func = "\<lambda>_. None" and sch = empty_scheduler]
  have 2: "py_int ''5'' = Inr 5"
    using on_empty [THEN conjunct2, THEN conjunct2, THEN conjunct1, rule_format, OF d]
    unfolding v .
  have u: "''5m'' = ''5'' @ [CHR ''m''] \<and> CHR ''m'' \<in> set ''smhd'' \<and> py_int ''5'' = Inr 5"
    using five_minutes_trigger by simp
  have 3: "parse_interval ''5m'' = Inr 300"
    using on_empty [THEN conjunct2, THEN conjunct1, rule_format, OF u]
    by (simp add: unit_seconds_def)
  have 4: "add_task test_engine ''t1'' ''T'' (\<lambda>_. None) ''5m'' True empty_scheduler
       = (True, one_task_scheduler)"
    unfolding on_empty [THEN conjunct1, rule_format, OF t, THEN conjunct1, rule_format, OF j0]
    by (simp add: empty_scheduler_def one_task_scheduler_def)
  have 5: "add_task test_engine ''t1'' ''T'' (\<lambda>_. None) ''5m'' True one_task_scheduler
       = (False, one_task_scheduler)"
    unfolding on_one [THEN conjunct1, rule_format, OF t, THEN conjunct2, rule_format, OF j1]
    by (simp add: one_task_scheduler_def)
  have s: "(\<exists>e. croniter test_engine ''0 0 * * * *'' = None
               \<and> from_crontab test_engine ''0 0 * * * *'' = Inl e)
       \<or> (\<exists>e. croniter test_engine ''0 0 * * * *'' = Some e \<and> (\<forall>msg. e \<noteq> ValueError msg))
       \<or> (\<exists>msg body u n e. croniter test_engine ''0 0 * * * *'' = Some (ValueError msg)
              \<and> ''0 0 * * * *'' = body @ [u] \<and> u \<in> set ''smhd'' \<and> py_int body = Inr n
              \<and> interval_trigger test_engine (n * unit_seconds u) = Inl e)
       \<or> (\<exists>msg. croniter test_engine ''0 0 * * * *'' = Some (ValueError msg)
              \<and> \<not> (\<exists>body u n. ''0 0 * * * *'' = body @ [u] \<and> u \<in> set ''smhd''
                       \<and> py_int body = Inr n))"
    using six_fields by blast
  have 8: "add_task test_engine ''t1'' ''T'' (\<lambda>_. None) ''0 0 * * * *'' True empty_scheduler
       = (False, empty_scheduler)"
    using on_six [THEN conjunct2, THEN conjunct2, THEN conjunct2, THEN conjunct2,
                  THEN conjunct2, THEN conjunct2, THEN conjunct2, THEN conjunct1,
                  rule_format, OF s] .
  have 10: "add_task test_engine ''t1'' ''T'' (\<lambda>_. None) ''5x'' True empty_scheduler
       = (False, empty_scheduler)"
    using on_5x [THEN conjunct2, THEN conjunct2, THEN conjunct2, THEN conjunct2,
                 THEN conjunct2, THEN conjunct2, THEN conjunct2, THEN conjunct2,
                 THEN conjunct1, rule_format, OF not_cron_5x] .
  have 11: "add_task test_engine ''t1'' ''T'' (\<lambda>_. None) ''5x'' False empty_scheduler
       = (True,
          \<lparr>engine = [],
           objects = [\<lparr>task_id = ''t1'', task_name = ''T'', task_func = (\<lambda>_. None),
                       task_schedule = ''5x'', task_enabled = False, last_run = None,
                       next_run = None, task_job = None\<rparr>],
           tasks = [(''t1'', 0)], bound = []\<rparr>)"
    unfolding on_5x [THEN conjunct2, THEN conjunct2, THEN conjunct2, THEN conjunct2,
                     THEN conjunct2, THEN conjunct2, THEN conjunct2, THEN conjunct2,
                     THEN conjunct2]
    by (simp add: empty_scheduler_def)
  from not_cron_5m 2 3 4 5 six_fields [THEN conjunct1] six_fields [THEN conjunct2] 8
    not_cron_5x 10 11
  show ?thesis by (intro conjI)
qed

text \<open>
  C6 as stated fails: added with \<open>enabled=False\<close>, a task with the schedule \<open>5x\<close>
  is registered and \<open>add_task\<close> reports success.
\<close>

theorem disabled_task_any_schedule_counterexample:
  "croniter test_engine ''5x'' = Some (ValueError ''Exactly 5 or 6 columns has to be specified'')
   \<and> \<not> is_interval_schedule ''5x''
   \<and> fst (add_task test_engine ''t1'' ''T'' (\<lambda>_. None) ''5x'' False empty_scheduler)
   \<and> map_option (\<lambda>t. (task_schedule t, task_enabled t, task_job t))
        (get_task (snd (add_task test_engine ''t1'' ''T'' (\<lambda>_. None) ''5x'' False
                          empty_scheduler)) ''t1'')
       = Some (''5x'', False, None)"
  by (simp add: not_cron_5x is_interval_schedule_def endswith_def add_task_def new_task_def
        get_task_def empty_scheduler_def)

end
